theory Spec2Isabelle
  imports Main "HOL-Library.Word"
begin

section \<open>Ordered containers\<close>

text \<open>
  A \<^verbatim>\<open>std::map<K, V>\<close> is an association list kept in ascending key order, so that
  \<^verbatim>\<open>begin()\<close> is the first entry, \<^verbatim>\<open>rbegin()\<close> the last one and iteration runs
  through the list. \<^verbatim>\<open>find\<close> is \<^const>\<open>map_of\<close>. A \<^verbatim>\<open>std::set<K>\<close> is a HOL set:
  the code only tests membership, inserts, erases, takes the size and reads the
  least element.
\<close>

fun m_assign :: "'k::linorder \<Rightarrow> 'v \<Rightarrow> ('k \<times> 'v) list \<Rightarrow> ('k \<times> 'v) list" where
  "m_assign k v [] = [(k, v)]"
| "m_assign k v ((k', v') # m) =
     (if k < k' then (k, v) # (k', v') # m
      else if k = k' then (k, v) # m
      else (k', v') # m_assign k v m)"

definition m_index :: "'v \<Rightarrow> 'k::linorder \<Rightarrow> ('k \<times> 'v) list \<Rightarrow> 'v \<times> ('k \<times> 'v) list" where
  \<comment> \<open>reading \<^verbatim>\<open>m[k]\<close>: a missing key is first inserted with the value-initialised \<open>dflt\<close>\<close>
  "m_index dflt k m =
     (case map_of m k of Some v \<Rightarrow> (v, m) | None \<Rightarrow> (dflt, m_assign k dflt m))"

definition m_erase :: "'k \<Rightarrow> ('k \<times> 'v) list \<Rightarrow> ('k \<times> 'v) list" where
  "m_erase k m = filter (\<lambda>e. fst e \<noteq> k) m"

fun lower_bound :: "'k::linorder \<Rightarrow> ('k \<times> 'v) list \<Rightarrow> ('k \<times> 'v) option" where
  "lower_bound h [] = None"
| "lower_bound h ((k, v) # m) = (if h \<le> k then Some (k, v) else lower_bound h m)"

section \<open>Branch graph (core/storage/indexdb/graph.cpp)\<close>

type_synonym BranchId = "64 word"
type_synonym Height = "64 word"
type_synonym TipsetHash = "8 word list"

text \<open>
  Modelled from the spec: the \<^verbatim>\<open>Branch\<close> struct and the \<^verbatim>\<open>Error\<close> enum are declared in
  graph.hpp, whose text is not available. The fields are those of the spec's data
  model (and those graph.cpp reads and writes); \<^verbatim>\<open>id\<close> and \<^verbatim>\<open>top\<close> carry
  a suffix because HOL has constants of these names. Branch ids and heights are
  unsigned 64-bit integers; graph.cpp only compares them.
\<close>

record Branch =
  id_b :: BranchId
  top_b :: TipsetHash
  top_height :: Height
  bottom :: TipsetHash
  bottom_height :: Height
  parent :: BranchId
  forks :: "BranchId set"

datatype Error =
    NO_CURRENT_CHAIN
  | BRANCH_NOT_FOUND
  | BRANCH_IS_NOT_A_HEAD
  | BRANCH_IS_NOT_A_ROOT
  | LINK_HEIGHT_MISMATCH
  | CYCLE_DETECTED
  | GRAPH_LOAD_ERROR

definition kZeroBranchId :: BranchId where
  "kZeroBranchId = 0"

definition Branch0 :: Branch where
  \<comment> \<open>a value-initialised \<^verbatim>\<open>Branch\<close>, as \<^verbatim>\<open>std::map::operator[]\<close> creates it\<close>
  "Branch0 = \<lparr>id_b = 0, top_b = [], top_height = 0, bottom = [], bottom_height = 0,
              parent = 0, forks = {}\<rparr>"

record Graph =
  all_branches :: "(BranchId \<times> Branch) list"
  roots :: "BranchId set"
  heads :: "BranchId set"
  current_chain :: "(Height \<times> BranchId) list"
  current_chain_bottom_height :: Height

text \<open>
  The mutators return \<open>None\<close> where an \<^verbatim>\<open>assert\<close> of the source fails (the process
  aborts, or runs into undefined behaviour when assertions are compiled out), and
  otherwise the \<^verbatim>\<open>outcome::result\<close> together with the graph they leave behind.
\<close>

definition findByHeight :: "Height \<Rightarrow> Graph \<Rightarrow> Error + BranchId" where
  "findByHeight height g =
     (if current_chain g = [] then Inl NO_CURRENT_CHAIN
      else if height < current_chain_bottom_height g then Inl BRANCH_NOT_FOUND
      else case lower_bound height (current_chain g) of
             None \<Rightarrow> Inl BRANCH_NOT_FOUND
           | Some (k, v) \<Rightarrow> Inr v)"

text \<open>
  The loop of \<^verbatim>\<open>switchToHead\<close>. The statement
  \<^verbatim>\<open>current_chain_[it->second.top_height] = current_chain_[it->second.id]\<close>
  first indexes the chain by the branch id (creating that key with value 0 when it
  is missing), then stores the value read there under the key \<^verbatim>\<open>top_height\<close>.
  \<open>cycle_guard\<close> starts at \<^verbatim>\<open>all_branches_.size() + 1\<close>, so it is at least 1 on entry and
  \<^verbatim>\<open>--cycle_guard == 0\<close> holds exactly when it was 1.
\<close>

fun walk_to_root ::
  "nat \<Rightarrow> BranchId \<Rightarrow> (BranchId \<times> Branch) list \<Rightarrow> (Height \<times> BranchId) list
     \<Rightarrow> (Error + (Height \<times> BranchId) list) option" where
  "walk_to_root cycle_guard curr_id all chain =
     (case map_of all curr_id of
        None \<Rightarrow> None
      | Some b \<Rightarrow>
          (case m_index 0 (id_b b) chain of
             (v, chain1) \<Rightarrow>
               (let chain2 = m_assign (top_height b) v chain1 in
                if parent b = kZeroBranchId then Some (Inr chain2)
                else if cycle_guard \<le> 1 then Some (Inl CYCLE_DETECTED)
                else walk_to_root (cycle_guard - 1) (parent b) all chain2)))"

definition switchToHead :: "BranchId \<Rightarrow> Graph \<Rightarrow> ((Error + unit) \<times> Graph) option" where
  "switchToHead head g =
     (if current_chain g \<noteq> [] \<and> snd (last (current_chain g)) = head then Some (Inr (), g)
      else if head \<notin> heads g then Some (Inl BRANCH_IS_NOT_A_HEAD, g)
      else
        (case walk_to_root (length (all_branches g) + 1) head (all_branches g) [] of
           None \<Rightarrow> None
         | Some (Inl e) \<Rightarrow> Some (Inl e, g\<lparr>current_chain := []\<rparr>)
         | Some (Inr chain) \<Rightarrow>
             (case chain of
                [] \<Rightarrow> None
              | (k, first) # rest \<Rightarrow>
                  (case m_index Branch0 first (all_branches g) of
                     (b, all') \<Rightarrow>
                       Some (Inr (),
                             g\<lparr>all_branches := all', current_chain := chain,
                               current_chain_bottom_height := bottom_height b\<rparr>)))))"


text \<open>
  \<^verbatim>\<open>merge\<close> receives the parent branch \<open>b\<close> that \<^verbatim>\<open>removeHead\<close> has already taken out
  of \<^verbatim>\<open>all_branches_\<close>. \<^verbatim>\<open>*b.forks.begin()\<close> is the least element of the set.
\<close>

definition merge :: "Branch \<Rightarrow> Graph \<Rightarrow> ((Error + BranchId \<times> BranchId) \<times> Graph) option" where
  "merge b g =
     (if forks b = {} then None
      else
        (let successor_id = Min (forks b) in
         case map_of (all_branches g) successor_id of
           None \<Rightarrow> None
         | Some successor \<Rightarrow>
             (let all1 = m_assign successor_id
                           (successor\<lparr>bottom := bottom b, bottom_height := bottom_height b,
                                      parent := parent b\<rparr>)
                           (all_branches g)
              in if parent b \<noteq> kZeroBranchId then
                   (case map_of all1 (parent b) of
                      None \<Rightarrow> None
                    | Some p \<Rightarrow>
                        Some (Inr (parent b, successor_id),
                              g\<lparr>all_branches :=
                                  m_assign (parent b)
                                    (p\<lparr>forks := insert successor_id (forks p - {id_b b})\<rparr>)
                                    all1\<rparr>))
                 else Some (Inr (parent b, successor_id), g\<lparr>all_branches := all1\<rparr>))))"

definition removeHead ::
  "BranchId \<Rightarrow> Graph \<Rightarrow> ((Error + BranchId \<times> BranchId) \<times> Graph) option" where
  "removeHead head g =
     (if head \<notin> heads g then Some (Inl BRANCH_IS_NOT_A_HEAD, g)
      else
        (let g1 = g\<lparr>heads := heads g - {head}, roots := roots g - {head},
                    current_chain :=
                      (if current_chain g \<noteq> [] \<and> snd (last (current_chain g)) = head
                       then [] else current_chain g)\<rparr>
         in case map_of (all_branches g1) head of
              None \<Rightarrow> None
            | Some hb \<Rightarrow>
                (let parent_id = parent hb;
                     g2 = g1\<lparr>all_branches := m_erase head (all_branches g1)\<rparr>
                 in if parent_id = kZeroBranchId then Some (Inr (kZeroBranchId, kZeroBranchId), g2)
                    else
                      (case map_of (all_branches g2) parent_id of
                         None \<Rightarrow> None
                       | Some pb0 \<Rightarrow>
                           (let pb = pb0\<lparr>forks := forks pb0 - {head}\<rparr>;
                                g3 = g2\<lparr>all_branches := m_assign parent_id pb (all_branches g2)\<rparr>
                            in if card (forks pb) \<noteq> 1
                               then Some (Inr (kZeroBranchId, kZeroBranchId), g3)
                               else merge pb
                                      (g3\<lparr>all_branches :=
                                            m_erase parent_id (all_branches g3)\<rparr>))))))"

text \<open>
  \<^verbatim>\<open>linkBranches\<close> is unfinished in the source: after its two checks it returns 0.
\<close>

definition linkBranches ::
  "BranchId \<Rightarrow> BranchId \<Rightarrow> TipsetHash \<Rightarrow> Height \<Rightarrow> Graph \<Rightarrow> ((Error + BranchId) \<times> Graph) option" where
  "linkBranches base_branch successor_branch parent_tipset parent_height g =
     (if successor_branch \<notin> roots g then Some (Inl BRANCH_IS_NOT_A_ROOT, g)
      else case map_of (all_branches g) base_branch of
             None \<Rightarrow> Some (Inl BRANCH_NOT_FOUND, g)
           | Some base \<Rightarrow> Some (Inr 0, g))"

text \<open>
  \<^verbatim>\<open>linkToHead\<close>. The five checks and their error returns are the source's. What
  follows them in the source (the successor adopts the bottom, the bottom height and
  the parent of the base, the forks of that parent or the roots are rewired, a chain
  ending at the base is cleared, the base leaves the heads) breaks off in the
  unfinished statement \<^verbatim>\<open>all_branches_\<close>, before any \<^verbatim>\<open>return\<close>: once the checks have
  passed the function as written has no result, and the model has none there either.
\<close>

definition linkToHead :: "BranchId \<Rightarrow> BranchId \<Rightarrow> Graph \<Rightarrow> ((Error + unit) \<times> Graph) option" where
  "linkToHead base_branch successor_branch g =
     (if successor_branch \<notin> roots g then Some (Inl BRANCH_IS_NOT_A_ROOT, g)
      else if base_branch \<notin> heads g then Some (Inl BRANCH_IS_NOT_A_HEAD, g)
      else
        (case map_of (all_branches g) base_branch of
           None \<Rightarrow> Some (Inl BRANCH_NOT_FOUND, g)
         | Some base \<Rightarrow>
             (case map_of (all_branches g) successor_branch of
                None \<Rightarrow> Some (Inl BRANCH_NOT_FOUND, g)
              | Some successor \<Rightarrow>
                  if bottom_height successor \<le> top_height base
                  then Some (Inl LINK_HEIGHT_MISMATCH, g)
                  else None)))"










section \<open>Collaborators of the sync components\<close>

text \<open>
  Modelled from the spec: tipsets, tipset keys, peer ids, the chain database, the
  tipset loader, the interpreter with its memo store and the scheduler are declared
  in headers whose text is not available. Their data is reduced to what sync_job.cpp
  and interpreter_job.cpp read. A \<^verbatim>\<open>std::error_code\<close> is an integer, 0 meaning "no error";
  an \<^verbatim>\<open>outcome::result<T>\<close> is \<open>error_code + T\<close>.
\<close>

type_synonym PeerId = "8 word list"
type_synonym CID = "8 word list"
type_synonym BigInt = int
type_synonym error_code = int

record TipsetKey =
  cids :: "CID list"
  hash :: TipsetHash

record Tipset =
  key :: TipsetKey
  height_ts :: Height
  getParents :: TipsetKey

record StateResult =
  state_root :: CID
  message_receipts :: CID

text \<open>
  The scheduler keeps the closures handed to \<^verbatim>\<open>schedule\<close> until they run; a handle is
  the ticket of one of them, and \<^verbatim>\<open>cancel\<close> withdraws it (a second \<^verbatim>\<open>cancel\<close>, or
  \<^verbatim>\<open>cancel\<close> on an empty handle, does nothing). The three closures scheduled by the
  sources are named after what they run. Storing a new handle over an old one is
  taken to leave the scheduler as it is.
\<close>

datatype Closure = SyncJobCallback | InterpreterResultCallback | InterpreterNextStep

record Scheduler =
  pending :: "(nat \<times> Closure) list"
  next_ticket :: nat

definition schedule :: "Closure \<Rightarrow> Scheduler \<Rightarrow> nat \<times> Scheduler" where
  "schedule c s =
     (next_ticket s, s\<lparr>pending := pending s @ [(next_ticket s, c)],
                          next_ticket := next_ticket s + 1\<rparr>)"

definition cancel_handle :: "nat option \<Rightarrow> Scheduler \<Rightarrow> Scheduler" where
  "cancel_handle h s = s\<lparr>pending := filter (\<lambda>e. Some (fst e) \<noteq> h) (pending s)\<rparr>"

text \<open>
  The behaviour of the chain database, the loader and the interpreter is a parameter
  of every function below: a record of functions over the collaborators' own state
  \<open>'x\<close>. \<open>moved_from\<close> is what is left in a \<^verbatim>\<open>TipsetKey\<close> variable after
  \<^verbatim>\<open>std::move\<close>, which C++ leaves unspecified. \<open>walkBackward\<close> and \<open>walkForward\<close>
  give the tipsets handed to the visitor, in order, and the result of the walk.
  \<open>interpret_tipset\<close> is \<^verbatim>\<open>Interpreter::interpret\<close>. \<open>new_entry_position\<close> is the
  place in the iteration order at which a \<^verbatim>\<open>std::unordered_map\<close> with the given keys
  links a new key; it depends on the hash function and the bucket count, which the
  C++ standard leaves to the implementation.
\<close>

record 'x Externals =
  tipsetIsStored :: "'x \<Rightarrow> TipsetHash \<Rightarrow> bool"
  getUnsyncedBottom :: "'x \<Rightarrow> TipsetKey \<Rightarrow> error_code + Tipset option"
  storeTipset :: "'x \<Rightarrow> Tipset \<Rightarrow> TipsetKey \<Rightarrow> (error_code + Tipset option) \<times> 'x"
  loadTipsetAsync :: "'x \<Rightarrow> TipsetKey \<Rightarrow> PeerId option \<Rightarrow> 64 word \<Rightarrow> (error_code + unit) \<times> 'x"
  moved_from :: "TipsetKey \<Rightarrow> TipsetKey"
  getTipsetByKey :: "'x \<Rightarrow> TipsetKey \<Rightarrow> error_code + Tipset"
  getSavedResult :: "'x \<Rightarrow> Tipset \<Rightarrow> error_code + StateResult option"
  setCurrentHead :: "'x \<Rightarrow> TipsetHash \<Rightarrow> (error_code + unit) \<times> 'x"
  walkBackward :: "'x \<Rightarrow> TipsetHash \<Rightarrow> Height \<Rightarrow> Tipset list \<times> (error_code + unit)"
  walkForward :: "'x \<Rightarrow> Height \<Rightarrow> Height \<Rightarrow> Tipset list \<times> (error_code + unit)"
  interpret_tipset :: "'x \<Rightarrow> Tipset \<Rightarrow> (error_code + StateResult) \<times> 'x"
  new_entry_position :: "PeerId \<Rightarrow> PeerId list \<Rightarrow> nat"

section \<open>InterpreterJob: data (interpreter_job.cpp)\<close>

text \<open>
  Modelled from the spec: the text of interpreter_job.hpp is not available; the
  members are those interpreter_job.cpp reads and writes. \<^verbatim>\<open>Status\<close> and \<^verbatim>\<open>Result\<close> are
  the nested types \<^verbatim>\<open>InterpreterJob::Status\<close> and \<^verbatim>\<open>InterpreterJob::Result\<close>; the null
  \<^verbatim>\<open>TipsetCPtr\<close> is \<open>None\<close>. Field names that other records below use again are
  written with the name of their record in front.
\<close>

record Status =
  current_height :: Height
  target_height :: Height

record Result =
  head :: "Tipset option"
  result :: "error_code + StateResult"

record InterpreterJob =
  active :: bool
  status :: Status
  result :: Result
  next_steps :: "Tipset list"
  step_cursor :: nat
  cb_handle :: "nat option"

section \<open>SyncJob (sync_job.hpp, sync_job.cpp)\<close>

datatype StatusCode =
  IDLE | IN_PROGRESS | SYNCED_TO_GENESIS | INTERRUPTED | BAD_BLOCKS | INTERNAL_ERROR

record SyncStatus =
  code :: StatusCode
  error :: error_code
  peer :: "PeerId option"
  head :: "TipsetKey option"
  last_loaded :: "TipsetHash option"
  "next" :: "TipsetHash option"
  total :: "64 word"

definition SyncStatus0 :: SyncStatus where
  \<comment> \<open>a default-constructed \<^verbatim>\<open>SyncStatus\<close>\<close>
  "SyncStatus0 =
     \<lparr>code = IDLE, error = 0, peer = None, head = None, last_loaded = None, next = None,
      total = 0\<rparr>"

record SyncJob =
  active :: bool
  status :: SyncStatus
  cb_handle :: "nat option"

definition SyncJob0 :: SyncJob where
  \<comment> \<open>a freshly constructed job\<close>
  "SyncJob0 = \<lparr>active = False, status = SyncStatus0, cb_handle = None\<rparr>"

text \<open>
  Everything the jobs can touch outside themselves: the collaborators' state, the
  scheduler, the requests made to \<^verbatim>\<open>loadTipsetAsync\<close> so far, the statuses the sync
  job's callback has been invoked with, the tipsets handed to \<^verbatim>\<open>interpret\<close> and the
  results the interpreter job's callback has been invoked with.
\<close>

record 'x World =
  ext :: 'x
  scheduler :: Scheduler
  load_requests :: "(TipsetKey \<times> PeerId option \<times> 64 word) list"
  sync_callbacks :: "SyncStatus list"
  interpret_calls :: "Tipset list"
  interpreter_callbacks :: "Result list"

definition request_load ::
  "'x Externals \<Rightarrow> TipsetKey \<Rightarrow> PeerId option \<Rightarrow> 64 word \<Rightarrow> 'x World
     \<Rightarrow> (error_code + unit) \<times> 'x World" where
  "request_load env k p depth w =
     (case loadTipsetAsync env (ext w) k p depth of
        (r, x') \<Rightarrow> (r, w\<lparr>ext := x', load_requests := load_requests w @ [(k, p, depth)]\<rparr>))"

definition scheduleCallback :: "SyncJob \<times> 'x World \<Rightarrow> SyncJob \<times> 'x World" where
  "scheduleCallback jw =
     (case jw of (j, w) \<Rightarrow>
        (case schedule SyncJobCallback (scheduler w) of
           (t, sch) \<Rightarrow> (j\<lparr>cb_handle := Some t\<rparr>, w\<lparr>scheduler := sch\<rparr>)))"

definition run_SyncJobCallback :: "SyncJob \<times> 'x World \<Rightarrow> SyncJob \<times> 'x World" where
  \<comment> \<open>the closure of \<^verbatim>\<open>scheduleCallback\<close>, when the scheduler runs it\<close>
  "run_SyncJobCallback jw =
     (case jw of (j, w) \<Rightarrow>
        (j\<lparr>status := SyncStatus0, active := False\<rparr>,
         w\<lparr>sync_callbacks := sync_callbacks w @ [status j]\<rparr>))"

definition internalError :: "error_code \<Rightarrow> SyncJob \<times> 'x World \<Rightarrow> SyncJob \<times> 'x World" where
  "internalError e jw =
     (case jw of (j, w) \<Rightarrow>
        scheduleCallback (j\<lparr>status := (status j)\<lparr>error := e, code := INTERNAL_ERROR\<rparr>\<rparr>, w))"

text \<open>
  \<^verbatim>\<open>nextTarget\<close> throws when the loader refuses the request; \<open>Inl\<close> is the thrown
  error, which the callers catch. The depth hint \<^verbatim>\<open>roots->height() - 1\<close> is unsigned
  64-bit arithmetic.
\<close>

definition nextTarget ::
  "'x Externals \<Rightarrow> Tipset option \<Rightarrow> SyncJob \<times> 'x World
     \<Rightarrow> (error_code + unit) \<times> SyncJob \<times> 'x World" where
  "nextTarget env last_loaded_ts jw =
     (case jw of (j, w) \<Rightarrow>
        (case last_loaded_ts of
           None \<Rightarrow>
             (Inr (),
              scheduleCallback
                (j\<lparr>status := (status j)\<lparr>next := Some [], code := SYNCED_TO_GENESIS\<rparr>\<rparr>, w))
         | Some rts \<Rightarrow>
             (let next_key = getParents rts;
                  j1 = j\<lparr>status := (status j)\<lparr>last_loaded := Some (hash (key rts)),
                                                next := Some (hash next_key)\<rparr>\<rparr>
              in case request_load env next_key (peer (status j1)) (height_ts rts - 1) w of
                   (r, w1) \<Rightarrow> (r, j1, w1))))"

definition start_SyncJob ::
  "'x Externals \<Rightarrow> PeerId \<Rightarrow> TipsetKey \<Rightarrow> 64 word \<Rightarrow> SyncJob \<times> 'x World
     \<Rightarrow> SyncJob \<times> 'x World" where
  "start_SyncJob env p hd_key probable_depth jw =
     (case jw of (j, w) \<Rightarrow>
        if active j then (j, w)
        else
          (let j1 = j\<lparr>active := True,
                      status := (status j)\<lparr>peer := Some p, head := Some hd_key\<rparr>\<rparr>;
               left = moved_from env hd_key
           in if \<not> tipsetIsStored env (ext w) (hash left) then
                (case request_load env hd_key (peer (status j1)) probable_depth w of
                   (Inl e, w1) \<Rightarrow> internalError e (j1, w1)
                 | (Inr u, w1) \<Rightarrow>
                     (j1\<lparr>status := (status j1)\<lparr>next := Some (hash hd_key),
                                                  code := IN_PROGRESS\<rparr>\<rparr>, w1))
              else
                (case getUnsyncedBottom env (ext w) left of
                   Inl e \<Rightarrow> internalError e (j1, w)
                 | Inr maybe_next_target \<Rightarrow>
                     (case nextTarget env maybe_next_target (j1, w) of
                        (Inl e, jw1) \<Rightarrow> internalError e jw1
                      | (Inr u, jw1) \<Rightarrow> jw1))))"

definition cancel_SyncJob :: "SyncJob \<times> 'x World \<Rightarrow> SyncJob \<times> 'x World" where
  "cancel_SyncJob jw =
     (case jw of (j, w) \<Rightarrow>
        if active j
        then (j\<lparr>status := SyncStatus0, active := False\<rparr>,
              w\<lparr>scheduler := cancel_handle (cb_handle j) (scheduler w)\<rparr>)
        else (j, w))"

definition onTipsetLoaded ::
  "'x Externals \<Rightarrow> TipsetHash \<Rightarrow> error_code + Tipset \<Rightarrow> SyncJob \<times> 'x World
     \<Rightarrow> SyncJob \<times> 'x World" where
  "onTipsetLoaded env h loaded jw =
     (case jw of (j, w) \<Rightarrow>
        if code (status j) \<noteq> IN_PROGRESS \<or> next (status j) = None
           \<or> Some h \<noteq> next (status j)
        then (j, w)
        else
          (case loaded of
             Inl e \<Rightarrow> internalError e (j, w)
           | Inr tipset \<Rightarrow>
               (case storeTipset env (ext w) tipset (getParents tipset) of
                  (Inl e, x') \<Rightarrow> internalError e (j, w\<lparr>ext := x'\<rparr>)
                | (Inr maybe_next_target, x') \<Rightarrow>
                    (case nextTarget env maybe_next_target (j, w\<lparr>ext := x'\<rparr>) of
                       (Inl e, jw1) \<Rightarrow> internalError e jw1
                     | (Inr u, jw1) \<Rightarrow> jw1))))"

section \<open>Syncer (sync_job.hpp, sync_job.cpp)\<close>

record Target =
  head_tipset :: TipsetKey
  weight :: BigInt
  height :: "64 word"

text \<open>
  \<^verbatim>\<open>pending_targets_\<close> is a \<^verbatim>\<open>std::unordered_map\<close>: an association list with one entry
  per peer, in the order in which the map is iterated. Assigning to a peer that has
  an entry replaces the target in place; a new entry is linked in at the position
  \<open>pos\<close> the container chooses (0 is the front of the iteration).
\<close>

definition um_assign :: "nat \<Rightarrow> 'k \<Rightarrow> 'v \<Rightarrow> ('k \<times> 'v) list \<Rightarrow> ('k \<times> 'v) list" where
  "um_assign pos k v m =
     (if k \<in> fst ` set m then map (\<lambda>e. if fst e = k then (k, v) else e) m
      else take pos m @ (k, v) # drop pos m)"

record Syncer =
  pending_targets :: "(PeerId \<times> Target) list"
  current_weight :: BigInt
  current_height :: "64 word"
  current_job :: "SyncJob option"
  started :: bool
  last_good_peer :: "PeerId option"
  probable_height :: Height

definition isActive :: "Syncer \<Rightarrow> bool" where
  "isActive s \<longleftrightarrow> started s \<and> (case current_job s of None \<Rightarrow> False | Some j \<Rightarrow> active j)"

fun choose_loop ::
  "(PeerId \<times> Target) list \<Rightarrow> BigInt \<Rightarrow> Height \<Rightarrow> Height \<Rightarrow> (PeerId \<times> Target) option
     \<Rightarrow> (PeerId \<times> Target) option" where
  "choose_loop [] max_weight max_height cur_height target = target"
| "choose_loop (it # rest) max_weight max_height cur_height target =
     (if weight (snd it) > max_weight
      then choose_loop rest (weight (snd it)) max_height cur_height (Some it)
      else if weight (snd it) = max_weight \<and> height (snd it) > cur_height
      then choose_loop rest max_weight cur_height cur_height (Some it)
      else choose_loop rest max_weight max_height cur_height target)"

definition chooseNextTarget :: "Syncer \<Rightarrow> (PeerId \<times> Target) option \<times> Syncer" where
  "chooseNextTarget s =
     (if pending_targets s \<noteq> [] then
        (case choose_loop (pending_targets s) (current_weight s) (current_height s)
                (current_height s) None of
           None \<Rightarrow> (None, s\<lparr>pending_targets := []\<rparr>)
         | Some it \<Rightarrow> (Some it, s))
      else (None, s))"

text \<open>
  \<^verbatim>\<open>startJob\<close> and, through it, \<^verbatim>\<open>newTarget\<close> return \<open>None\<close> where an \<^verbatim>\<open>assert\<close> fails.
\<close>

definition startJob ::
  "'x Externals \<Rightarrow> PeerId \<Rightarrow> TipsetKey \<Rightarrow> 64 word \<Rightarrow> Syncer \<times> 'x World
     \<Rightarrow> (Syncer \<times> 'x World) option" where
  "startJob env p hd_key h sw =
     (case sw of (s, w) \<Rightarrow>
        if \<not> started s then None
        else
          (let j = (case current_job s of None \<Rightarrow> SyncJob0 | Some j \<Rightarrow> j) in
           if active j then None
           else
             (let probable_depth = (if h > probable_height s then h - probable_height s else h)
              in case start_SyncJob env p hd_key probable_depth (j, w) of
                   (j', w') \<Rightarrow> Some (s\<lparr>current_job := Some j'\<rparr>, w'))))"

definition newTarget ::
  "'x Externals \<Rightarrow> PeerId option \<Rightarrow> TipsetKey \<Rightarrow> BigInt \<Rightarrow> 64 word \<Rightarrow> Syncer \<times> 'x World
     \<Rightarrow> (Syncer \<times> 'x World) option" where
  "newTarget env p hd_key wt h sw =
     (case sw of (s, w) \<Rightarrow>
        if wt < current_weight s \<and> h < current_height s then Some (s, w)
        else
          (case (case p of None \<Rightarrow> last_good_peer s | Some q \<Rightarrow> Some q) of
             None \<Rightarrow> Some (s, w)
           | Some q \<Rightarrow>
               if started s \<and> \<not> isActive s then startJob env q hd_key h (s, w)
               else Some (s\<lparr>pending_targets :=
                              um_assign
                                (new_entry_position env q (map fst (pending_targets s))) q
                                \<lparr>head_tipset = hd_key, weight = wt, height = h\<rparr>
                                (pending_targets s)\<rparr>, w)))"

section \<open>InterpreterJob: operations (interpreter_job.cpp)\<close>

definition cancel_InterpreterJob ::
  "InterpreterJob \<times> 'x World \<Rightarrow> InterpreterJob \<times> 'x World" where
  "cancel_InterpreterJob jw =
     (case jw of (j, w) \<Rightarrow>
        (j\<lparr>InterpreterJob.active := False\<rparr>,
         w\<lparr>scheduler := cancel_handle (InterpreterJob.cb_handle j) (scheduler w)\<rparr>))"

definition scheduleResult :: "InterpreterJob \<times> 'x World \<Rightarrow> InterpreterJob \<times> 'x World" where
  "scheduleResult jw =
     (case jw of (j, w) \<Rightarrow>
        (case schedule InterpreterResultCallback (scheduler w) of
           (t, sch) \<Rightarrow>
             (j\<lparr>InterpreterJob.active := False, next_steps := [], step_cursor := 0,
                InterpreterJob.cb_handle := Some t\<rparr>,
              w\<lparr>scheduler := sch\<rparr>)))"

definition run_InterpreterResultCallback ::
  "InterpreterJob \<times> 'x World \<Rightarrow> InterpreterJob \<times> 'x World" where
  \<comment> \<open>the closure of \<^verbatim>\<open>scheduleResult\<close>, when the scheduler runs it\<close>
  "run_InterpreterResultCallback jw =
     (case jw of (j, w) \<Rightarrow>
        (j, w\<lparr>interpreter_callbacks := interpreter_callbacks w @ [InterpreterJob.result j]\<rparr>))"

definition scheduleStep :: "InterpreterJob \<times> 'x World \<Rightarrow> InterpreterJob \<times> 'x World" where
  "scheduleStep jw =
     (case jw of (j, w) \<Rightarrow>
        if \<not> InterpreterJob.active j then (j, w)
        else
          (case schedule InterpreterNextStep (scheduler w) of
             (t, sch) \<Rightarrow> (j\<lparr>InterpreterJob.cb_handle := Some t\<rparr>, w\<lparr>scheduler := sch\<rparr>)))"

text \<open>
  The visitor \<^verbatim>\<open>start\<close> passes to \<^verbatim>\<open>walkBackward\<close>, run over the tipsets of the walk
  until it answers \<^verbatim>\<open>false\<close>. \<open>e\<close> is the captured \<^verbatim>\<open>std::error_code\<close>.
\<close>

fun visit_backward ::
  "'x Externals \<Rightarrow> 'x \<Rightarrow> Tipset list \<Rightarrow> InterpreterJob \<Rightarrow> error_code
     \<Rightarrow> InterpreterJob \<times> error_code" where
  "visit_backward env x [] j e = (j, e)"
| "visit_backward env x (t # ts) j e =
     (if e \<noteq> 0 then (j, e)
      else case getSavedResult env x t of
             Inl err \<Rightarrow> if err \<noteq> 0 then (j, err) else visit_backward env x ts j err
           | Inr (Some r) \<Rightarrow>
               (j\<lparr>InterpreterJob.status :=
                    (InterpreterJob.status j)\<lparr>Status.current_height := height_ts t\<rparr>\<rparr>, e)
           | Inr None \<Rightarrow> visit_backward env x ts j e)"

definition start_InterpreterJob ::
  "'x Externals \<Rightarrow> TipsetKey \<Rightarrow> InterpreterJob \<times> 'x World
     \<Rightarrow> (error_code + unit) \<times> InterpreterJob \<times> 'x World" where
  "start_InterpreterJob env hd_key jw =
     (case (if InterpreterJob.active (fst jw) then cancel_InterpreterJob jw else jw) of
        (j0, w0) \<Rightarrow>
          (case getTipsetByKey env (ext w0) hd_key of
             Inl e \<Rightarrow> (Inl e, j0, w0)
           | Inr t \<Rightarrow>
               (let j1 = j0\<lparr>InterpreterJob.result :=
                              (InterpreterJob.result j0)\<lparr>Result.head := Some t\<rparr>,
                            InterpreterJob.status :=
                              (InterpreterJob.status j0)\<lparr>target_height := height_ts t\<rparr>\<rparr>
                in case getSavedResult env (ext w0) t of
                     Inl e \<Rightarrow> (Inl e, j1, w0)
                   | Inr (Some r) \<Rightarrow>
                       (Inr (),
                        scheduleResult
                          (j1\<lparr>InterpreterJob.result :=
                                (InterpreterJob.result j1)\<lparr>Result.result := Inr r\<rparr>,
                              InterpreterJob.status :=
                                (InterpreterJob.status j1)
                                  \<lparr>Status.current_height :=
                                     target_height (InterpreterJob.status j1)\<rparr>\<rparr>,
                           w0))
                   | Inr None \<Rightarrow>
                       (case setCurrentHead env (ext w0) (hash (key t)) of
                          (Inl e, x1) \<Rightarrow> (Inl e, j1, w0\<lparr>ext := x1\<rparr>)
                        | (Inr u, x1) \<Rightarrow>
                            (case walkBackward env x1 (hash (key t)) 0 of
                               (visited, res) \<Rightarrow>
                                 (case visit_backward env x1 visited j1 0 of
                                    (j2, e) \<Rightarrow>
                                      (case res of
                                         Inl e' \<Rightarrow> (Inl e', j2, w0\<lparr>ext := x1\<rparr>)
                                       | Inr u' \<Rightarrow>
                                           if e \<noteq> 0 then (Inl e, j2, w0\<lparr>ext := x1\<rparr>)
                                           else
                                             (Inr (),
                                              scheduleStep
                                                (j2\<lparr>InterpreterJob.active := True\<rparr>,
                                                 w0\<lparr>ext := x1\<rparr>)))))))))"

text \<open>
  \<^verbatim>\<open>fillNextSteps\<close> and \<^verbatim>\<open>nextStep\<close> return \<open>None\<close> where an \<^verbatim>\<open>assert\<close> fails. The
  height difference is unsigned 64-bit arithmetic. \<^verbatim>\<open>nextStep\<close> is the only caller of
  \<^verbatim>\<open>interpret\<close>.
\<close>

definition kQueryLimit :: "64 word" where
  "kQueryLimit = 100"

definition fillNextSteps ::
  "'x Externals \<Rightarrow> InterpreterJob \<times> 'x World \<Rightarrow> (InterpreterJob \<times> 'x World) option" where
  "fillNextSteps env jw =
     (case jw of (j, w) \<Rightarrow>
        if step_cursor j < length (next_steps j) then Some (j, w)
        else
          (let j1 = j\<lparr>next_steps := [], step_cursor := 0\<rparr>;
               cur = Status.current_height (InterpreterJob.status j1);
               tgt = target_height (InterpreterJob.status j1)
           in if \<not> InterpreterJob.active j1 then None
              else if \<not> cur \<le> tgt then None
              else if tgt - cur = 0 then Some (j1, w)
              else
                (let diff = (if tgt - cur > kQueryLimit then kQueryLimit else tgt - cur)
                 in case walkForward env (ext w) (cur + 1) (cur + diff - 1) of
                      (visited, res) \<Rightarrow>
                        (let j2 = j1\<lparr>next_steps := filter (\<lambda>t. height_ts t \<le> tgt) visited\<rparr>
                         in case res of
                              Inl e \<Rightarrow>
                                Some (j2\<lparr>InterpreterJob.result :=
                                           (InterpreterJob.result j2)\<lparr>Result.result := Inl e\<rparr>,
                                         next_steps := []\<rparr>, w)
                            | Inr u \<Rightarrow> Some (j2, w)))))"

definition nextStep ::
  "'x Externals \<Rightarrow> InterpreterJob \<times> 'x World \<Rightarrow> (InterpreterJob \<times> 'x World) option" where
  "nextStep env jw =
     (if \<not> InterpreterJob.active (fst jw) then Some jw
      else
        (case fillNextSteps env jw of
           None \<Rightarrow> None
         | Some (j1, w1) \<Rightarrow>
             if next_steps j1 = [] then Some (scheduleResult (j1, w1))
             else if \<not> step_cursor j1 < length (next_steps j1) then None
             else
               (let tipset = next_steps j1 ! step_cursor j1;
                    j2 = j1\<lparr>step_cursor := step_cursor j1 + 1,
                            InterpreterJob.status :=
                              (InterpreterJob.status j1)
                                \<lparr>Status.current_height := height_ts tipset\<rparr>\<rparr>
                in case interpret_tipset env (ext w1) tipset of
                     (r, x') \<Rightarrow>
                       (let w2 = w1\<lparr>ext := x', interpret_calls := interpret_calls w1 @ [tipset]\<rparr>;
                            j3 = j2\<lparr>InterpreterJob.result :=
                                      (InterpreterJob.result j2)\<lparr>Result.result := r\<rparr>\<rparr>
                        in case r of
                             Inl e \<Rightarrow> Some (scheduleResult (j3\<lparr>InterpreterJob.active := False\<rparr>, w2))
                           | Inr v \<Rightarrow> Some (scheduleStep (j3, w2))))))"

section \<open>Example graphs\<close>

definition mk_branch :: "BranchId \<Rightarrow> BranchId \<Rightarrow> Height \<Rightarrow> Height \<Rightarrow> BranchId set \<Rightarrow> Branch" where
  "mk_branch i p lo hi fs =
     \<lparr>id_b = i, top_b = [], top_height = hi, bottom = [], bottom_height = lo,
      parent = p, forks = fs\<rparr>"

text \<open>A single branch 1 covering heights 10..20, which is both root and head.\<close>

definition graph_single :: Graph where
  "graph_single =
     \<lparr>all_branches = [(1, mk_branch 1 0 10 20 {})], roots = {1}, heads = {1},
      current_chain = [], current_chain_bottom_height = 0\<rparr>"

text \<open>What \<^verbatim>\<open>switchToHead(1)\<close> makes of it.\<close>

definition graph_single_switched :: Graph where
  "graph_single_switched =
     \<lparr>all_branches = [(0, Branch0), (1, mk_branch 1 0 10 20 {})], roots = {1}, heads = {1},
      current_chain = [(1, 0), (20, 0)], current_chain_bottom_height = 0\<rparr>"

text \<open>
  The graph of the spec's head-collapse scenario: B1 (10..20), B2 (21..30) on B1,
  and the two entries in the forks of B2: B3 (31..40) on B2, and B4 (25..27), whose
  parent field names B1.
\<close>

definition graph_forked :: Graph where
  "graph_forked =
     \<lparr>all_branches =
        [(1, mk_branch 1 0 10 20 {2}), (2, mk_branch 2 1 21 30 {3, 4}),
         (3, mk_branch 3 2 31 40 {}), (4, mk_branch 4 1 25 27 {})],
      roots = {1}, heads = {3, 4},
      current_chain = [], current_chain_bottom_height = 0\<rparr>"

text \<open>A store in which the parent pointers of branches 1 and 2 form a cycle.\<close>

definition graph_cyclic :: Graph where
  "graph_cyclic =
     \<lparr>all_branches = [(1, mk_branch 1 2 10 20 {2}), (2, mk_branch 2 1 21 30 {1})],
      roots = {}, heads = {1},
      current_chain = [(20, 0)], current_chain_bottom_height = 10\<rparr>"




section \<open>Example jobs and targets\<close>

definition key_of :: "8 word \<Rightarrow> TipsetKey" where
  "key_of n = \<lparr>cids = [n] # [], hash = [n]\<rparr>"

definition tipset_H :: Tipset where
  "tipset_H = \<lparr>key = key_of 7, height_ts = 150, getParents = key_of 6\<rparr>"

definition result_H :: StateResult where
  "result_H = \<lparr>state_root = [1, 2], message_receipts = [3, 4]\<rparr>"

text \<open>
  Collaborators without state of their own: nothing is stored yet, the loader accepts
  every request, and the memo store holds a result for \<open>tipset_H\<close> only. A new
  pending target is iterated first.
\<close>

definition env_example :: "unit Externals" where
  "env_example =
     \<lparr>tipsetIsStored = (\<lambda>x h. False),
      getUnsyncedBottom = (\<lambda>x k. Inr None),
      storeTipset = (\<lambda>x t k. (Inr None, x)),
      loadTipsetAsync = (\<lambda>x k p d. (Inr (), x)),
      moved_from = (\<lambda>k. \<lparr>cids = [], hash = []\<rparr>),
      getTipsetByKey = (\<lambda>x k. if k = key_of 7 then Inr tipset_H else Inl 1),
      getSavedResult = (\<lambda>x t. if t = tipset_H then Inr (Some result_H) else Inr None),
      setCurrentHead = (\<lambda>x h. (Inr (), x)),
      walkBackward = (\<lambda>x h l. ([], Inr ())),
      walkForward = (\<lambda>x lo hi. ([], Inr ())),
      interpret_tipset = (\<lambda>x t. (Inl 1, x)),
      new_entry_position = (\<lambda>k ks. 0)\<rparr>"

definition world_example :: "unit World" where
  "world_example =
     \<lparr>ext = (), scheduler = \<lparr>pending = [], next_ticket = 0\<rparr>, load_requests = [],
      sync_callbacks = [], interpret_calls = [], interpreter_callbacks = []\<rparr>"

text \<open>A job waiting for the tipset with hash \<open>[5]\<close>, requested from peer \<open>[1]\<close>.\<close>

definition job_waiting :: SyncJob where
  "job_waiting =
     \<lparr>active = True,
      status = \<lparr>code = IN_PROGRESS, error = 0, peer = Some [1], head = Some (key_of 9),
                last_loaded = Some [6], next = Some [5], total = 0\<rparr>,
      cb_handle = None\<rparr>"

text \<open>
  A started syncer at weight 0 and height 0 with two pending targets of weight 10,
  the first at height 50 and the second at height 20.
\<close>

definition syncer_tie :: Syncer where
  "syncer_tie =
     \<lparr>pending_targets =
        [([1], \<lparr>head_tipset = key_of 1, weight = 10, height = 50\<rparr>),
         ([2], \<lparr>head_tipset = key_of 2, weight = 10, height = 20\<rparr>)],
      current_weight = 0, current_height = 0, current_job = None, started = True,
      last_good_peer = None, probable_height = 0\<rparr>"

text \<open>A started syncer at weight 100 and height 100, idle or busy with \<open>job_waiting\<close>.\<close>

definition syncer_idle :: Syncer where
  "syncer_idle =
     \<lparr>pending_targets = [], current_weight = 100, current_height = 100, current_job = None,
      started = True, last_good_peer = None, probable_height = 0\<rparr>"

definition syncer_busy :: Syncer where
  "syncer_busy = syncer_idle\<lparr>current_job := Some job_waiting\<rparr>"

text \<open>An interpreter job that has not run yet.\<close>

definition interpreter_idle :: InterpreterJob where
  "interpreter_idle =
     \<lparr>InterpreterJob.active = False,
      InterpreterJob.status = \<lparr>Status.current_height = 0, target_height = 0\<rparr>,
      InterpreterJob.result = \<lparr>Result.head = None, Result.result = Inl 1\<rparr>,
      next_steps = [], step_cursor = 0, InterpreterJob.cb_handle = None\<rparr>"

section \<open>Notions used in the proofs about load\<close>




section \<open>Facts about the containers and the walk to the root\<close>

lemma map_of_m_assign: "map_of (m_assign k v m) = (map_of m)(k \<mapsto> v)"
  by (induction m) (auto simp: fun_eq_iff)

lemma map_of_m_erase: "map_of (m_erase k m) = (map_of m)(k := None)"
  by (induction m) (auto simp: m_erase_def fun_eq_iff)

lemma set_m_assign: "set (m_assign k v m) \<subseteq> insert (k, v) (set m)"
  by (induction m) (auto split: if_splits)

lemma m_assign_not_Nil: "m_assign k v m \<noteq> []"
  by (cases m) (auto split: if_splits)

lemma m_index_present: "map_of m k = Some v \<Longrightarrow> m_index d k m = (v, m)"
  by (simp add: m_index_def)

lemma m_index_lookup: "m_index d k m = (v, m') \<Longrightarrow> map_of m' k = Some v"
  by (auto simp: m_index_def map_of_m_assign split: option.splits)

lemma m_index_other: "m_index d k m = (v, m') \<Longrightarrow> k' \<noteq> k \<Longrightarrow> map_of m' k' = map_of m k'"
  by (auto simp: m_index_def map_of_m_assign split: option.splits)

lemma m_index_zero:
  assumes "\<forall>e\<in>set c. snd e = (0::BranchId)" and "m_index 0 k c = (v, c1)"
  shows "v = 0 \<and> (\<forall>e\<in>set c1. snd e = 0)"
proof (cases "map_of c k")
  case None
  with assms(2) have "v = 0" "c1 = m_assign k 0 c" by (auto simp: m_index_def)
  with assms(1) set_m_assign[of k "0::BranchId" c] show ?thesis by auto
next
  case (Some w)
  with assms(2) have "v = w" "c1 = c" by (auto simp: m_index_def)
  moreover from Some have "(k, w) \<in> set c" by (rule map_of_SomeD)
  ultimately show ?thesis using assms(1) by auto
qed

lemma walk_values_zero:
  "\<forall>e\<in>set c. snd e = 0 \<Longrightarrow> walk_to_root n cid all c = Some (Inr r)
     \<Longrightarrow> r \<noteq> [] \<and> (\<forall>e\<in>set r. snd e = 0)"
proof (induction n cid all c rule: walk_to_root.induct)
  case (1 n cid all c)
  from "1.prems"(2) obtain b where b: "map_of all cid = Some b"
    by (auto split: option.splits)
  obtain v c1 where ix: "m_index 0 (id_b b) c = (v, c1)" by (cases "m_index (0::BranchId) (id_b b) c")
  from m_index_zero[OF "1.prems"(1) ix] have v: "v = 0" and c1: "\<forall>e\<in>set c1. snd e = 0" by auto
  let ?c2 = "m_assign (top_height b) v c1"
  have c2: "\<forall>e\<in>set ?c2. snd e = 0" using set_m_assign[of "top_height b" v c1] v c1 by auto
  show ?case
  proof (cases "parent b = kZeroBranchId")
    case True
    with "1.prems"(2) b ix have "r = ?c2" by simp
    with c2 show ?thesis by (simp add: m_assign_not_Nil)
  next
    case False
    with "1.prems"(2) b ix have ng: "\<not> n \<le> 1" and rec: "walk_to_root (n - 1) (parent b) all ?c2 = Some (Inr r)"
      by (auto split: if_splits)
    from "1.IH"[OF b ix[symmetric] refl False ng c2 rec] show ?thesis .
  qed
qed

lemma walk_stable:
  "walk_to_root n cid all c = Some (Inr r) \<Longrightarrow> cid \<noteq> 0 \<Longrightarrow> n \<le> n'
     \<Longrightarrow> \<forall>k. k \<noteq> 0 \<longrightarrow> map_of all' k = map_of all k
     \<Longrightarrow> walk_to_root n' cid all' c = Some (Inr r)"
proof (induction n cid all c arbitrary: n' rule: walk_to_root.induct)
  case (1 n cid all c)
  from "1.prems"(1) obtain b where b: "map_of all cid = Some b"
    by (auto split: option.splits)
  with "1.prems"(2,4) have b': "map_of all' cid = Some b" by simp
  obtain v c1 where ix: "m_index 0 (id_b b) c = (v, c1)" by (cases "m_index (0::BranchId) (id_b b) c")
  let ?c2 = "m_assign (top_height b) v c1"
  show ?case
  proof (cases "parent b = kZeroBranchId")
    case True
    with "1.prems"(1) b ix have "r = ?c2" by simp
    with True b' ix show ?thesis by simp
  next
    case False
    with "1.prems"(1) b ix have ng: "\<not> n \<le> 1" and rec: "walk_to_root (n - 1) (parent b) all ?c2 = Some (Inr r)"
      by (auto split: if_splits)
    from False have pz: "parent b \<noteq> 0" by (simp add: kZeroBranchId_def)
    from ng "1.prems"(3) have le: "n - 1 \<le> n' - 1" and ng': "\<not> n' \<le> 1" by auto
    from "1.IH"[OF b ix[symmetric] refl False ng rec pz le "1.prems"(4)]
    have "walk_to_root (n' - 1) (parent b) all' ?c2 = Some (Inr r)" .
    with False ng' b' ix show ?thesis by simp
  qed
qed

lemma length_m_assign: "length m \<le> length (m_assign k v m)"
  by (induction m) auto

section \<open>switchToHead and findByHeight\<close>

lemma switchToHead_graph_single:
  "switchToHead 1 graph_single = Some (Inr (), graph_single_switched)"
  by (simp add: switchToHead_def graph_single_def graph_single_switched_def mk_branch_def
        m_index_def kZeroBranchId_def Branch0_def)

text \<open>
  Claim C1. After a successful \<^verbatim>\<open>switchToHead(h)\<close> the chain should hold, for each
  branch on the path from a root to \<open>h\<close>, the entry (top height of the branch, id of
  the branch), and \<^verbatim>\<open>findByHeight(k)\<close> should return a branch whose heights contain
  \<open>k\<close>. The code stores \<^verbatim>\<open>current_chain_[id]\<close>, a freshly created 0, instead of the
  id: on the graph with the single branch 1 (heights 10..20) the chain becomes
  \<open>{1 \<mapsto> 0, 20 \<mapsto> 0}\<close> instead of \<open>{20 \<mapsto> 1}\<close>, a value-initialised branch 0 is added
  to \<^verbatim>\<open>all_branches_\<close>, and \<^verbatim>\<open>findByHeight(15)\<close> answers 0 instead of 1.
\<close>

theorem switchToHead_stores_zero_ids:
  "switchToHead 1 graph_single = Some (Inr (), graph_single_switched)
   \<and> current_chain graph_single_switched = [(1, 0), (20, 0)]
   \<and> current_chain graph_single_switched \<noteq> [(20, 1)]
   \<and> findByHeight 15 graph_single_switched = Inr 0
   \<and> map_of (all_branches graph_single_switched) 0 = Some Branch0"
  by (simp add: switchToHead_graph_single)
     (simp add: graph_single_switched_def findByHeight_def)

text \<open>
  Claim C9. A second \<^verbatim>\<open>switchToHead(h)\<close> right after a successful one succeeds and
  leaves the whole graph (\<^verbatim>\<open>all_branches_\<close>, \<^verbatim>\<open>roots_\<close>, \<^verbatim>\<open>heads_\<close>, \<^verbatim>\<open>current_chain_\<close>,
  \<^verbatim>\<open>current_chain_bottom_height_\<close>) as the first call left it.
\<close>

theorem switchToHead_idempotent:
  assumes "switchToHead h g = Some (Inr (), g1)"
  shows "switchToHead h g1 = Some (Inr (), g1)"
proof (cases "current_chain g \<noteq> [] \<and> snd (last (current_chain g)) = h")
  case True
  with assms have "g1 = g" by (simp add: switchToHead_def)
  with True show ?thesis by (simp add: switchToHead_def)
next
  case False
  with assms have hd: "h \<in> heads g" by (auto simp: switchToHead_def split: if_splits)
  let ?all = "all_branches g"
  from False hd assms obtain chain where
    w: "walk_to_root (length ?all + 1) h ?all [] = Some (Inr chain)"
    by (auto simp: switchToHead_def split: option.splits sum.splits)
  from walk_values_zero[OF _ w] have ne: "chain \<noteq> []" and z: "\<forall>e\<in>set chain. snd e = 0" by auto
  then obtain k rest where ch: "chain = (k, 0) # rest" by (cases chain) auto
  obtain b all' where ix: "m_index Branch0 0 ?all = (b, all')" by (cases "m_index Branch0 0 ?all")
  from False hd assms w ch ix have g1: "g1 = g\<lparr>all_branches := all', current_chain := chain,
      current_chain_bottom_height := bottom_height b\<rparr>"
    by (auto simp: switchToHead_def)
  from ne z have last0: "snd (last chain) = 0" by simp
  show ?thesis
  proof (cases "h = 0")
    case True
    with g1 ne last0 show ?thesis by (simp add: switchToHead_def)
  next
    case hz: False
    have same: "\<forall>k. k \<noteq> 0 \<longrightarrow> map_of all' k = map_of ?all k"
      using m_index_other[OF ix] by auto
    have len: "length ?all + 1 \<le> length all' + 1"
      using ix length_m_assign[of ?all 0 Branch0] by (auto simp: m_index_def split: option.splits)
    from walk_stable[OF w hz len same]
    have w': "walk_to_root (length all' + 1) h all' [] = Some (Inr chain)" .
    from m_index_lookup[OF ix] have "m_index Branch0 0 all' = (b, all')"
      by (rule m_index_present)
    with w' hz hd g1 ne last0 ch show ?thesis
      by (simp add: switchToHead_def)
  qed
qed

theorem switchToHead_idempotent_witness:
  "switchToHead 1 graph_single = Some (Inr (), graph_single_switched)
   \<and> switchToHead 1 graph_single_switched = Some (Inr (), graph_single_switched)"
  using switchToHead_idempotent [OF switchToHead_graph_single]
  by (simp add: switchToHead_graph_single)

section \<open>Mutators that fail\<close>

lemma merge_not_error: "merge b g \<noteq> Some (Inl e, g')"
  by (auto simp: merge_def Let_def split: option.splits if_splits)

text \<open>
  Claim C3, as stated: a mutator that returns an error leaves the graph as it was, and
  in particular \<^verbatim>\<open>switchToHead\<close> returning \<^verbatim>\<open>CYCLE_DETECTED\<close> leaves \<^verbatim>\<open>current_chain_\<close> as
  it was. The code clears the chain before it reports the cycle: on a store whose
  parent pointers loop, a chain that was \<open>{20 \<mapsto> 0}\<close> is empty afterwards.
\<close>

theorem cycle_clears_chain_counterexample:
  "switchToHead 1 graph_cyclic = Some (Inl CYCLE_DETECTED, graph_cyclic\<lparr>current_chain := []\<rparr>)
   \<and> current_chain graph_cyclic = [(20, 0)]
   \<and> current_chain (graph_cyclic\<lparr>current_chain := []\<rparr>) \<noteq> current_chain graph_cyclic"
  by (simp add: switchToHead_def graph_cyclic_def mk_branch_def m_index_def kZeroBranchId_def)

text \<open>
  Claim C3, amended. If \<^verbatim>\<open>removeHead\<close>, \<^verbatim>\<open>linkToHead\<close> or \<^verbatim>\<open>linkBranches\<close> returns an
  error, or \<^verbatim>\<open>switchToHead\<close> returns an error other than \<^verbatim>\<open>CYCLE_DETECTED\<close>, the graph
  is exactly what it was before the call; when \<^verbatim>\<open>switchToHead\<close> returns
  \<^verbatim>\<open>CYCLE_DETECTED\<close>, \<^verbatim>\<open>current_chain_\<close> is empty and everything else is what it was.
\<close>

theorem failed_mutators_keep_graph:
  "(switchToHead h g = Some (Inl e1, g1) \<longrightarrow>
      (if e1 = CYCLE_DETECTED then g1 = g\<lparr>current_chain := []\<rparr> else g1 = g))
   \<and> (removeHead h g = Some (Inl e2, g2) \<longrightarrow> g2 = g)
   \<and> (linkToHead base succ g = Some (Inl e3, g3) \<longrightarrow> g3 = g)
   \<and> (linkBranches base succ t ph g = Some (Inl e4, g4) \<longrightarrow> g4 = g)"
proof (intro conjI impI)
  assume a: "switchToHead h g = Some (Inl e1, g1)"
  have w: "walk_to_root n c m ch = Some (Inl e) \<Longrightarrow> e = CYCLE_DETECTED" for n c m ch e
    by (induction n c m ch rule: walk_to_root.induct)
       (auto split: option.splits prod.splits if_splits simp: Let_def)
  from a show "if e1 = CYCLE_DETECTED then g1 = g\<lparr>current_chain := []\<rparr> else g1 = g"
    by (auto simp: switchToHead_def simp del: walk_to_root.simps
             split: if_splits option.splits sum.splits list.splits prod.splits dest: w)
next
  assume "removeHead h g = Some (Inl e2, g2)"
  then show "g2 = g"
    by (auto simp: removeHead_def Let_def merge_not_error split: if_splits option.splits)
next
  assume "linkToHead base succ g = Some (Inl e3, g3)"
  then show "g3 = g"
    by (auto simp: linkToHead_def Let_def split: if_splits option.splits)
next
  assume "linkBranches base succ t ph g = Some (Inl e4, g4)"
  then show "g4 = g"
    by (auto simp: linkBranches_def split: if_splits option.splits)
qed

theorem failed_mutators_keep_graph_witness:
  "switchToHead 7 graph_single = Some (Inl BRANCH_IS_NOT_A_HEAD, graph_single)
   \<and> removeHead 7 graph_single = Some (Inl BRANCH_IS_NOT_A_HEAD, graph_single)
   \<and> linkToHead 7 1 graph_single = Some (Inl BRANCH_IS_NOT_A_HEAD, graph_single)
   \<and> linkBranches 7 1 [] 15 graph_single = Some (Inl BRANCH_NOT_FOUND, graph_single)
   \<and> (\<exists>g1. switchToHead 1 graph_cyclic = Some (Inl CYCLE_DETECTED, g1)
          \<and> g1 = graph_cyclic\<lparr>current_chain := []\<rparr>)"
proof -
  have a: "switchToHead 7 graph_single = Some (Inl BRANCH_IS_NOT_A_HEAD, graph_single)"
    by (simp add: switchToHead_def graph_single_def)
  have b: "removeHead 7 graph_single = Some (Inl BRANCH_IS_NOT_A_HEAD, graph_single)"
    by (simp add: removeHead_def graph_single_def)
  have c: "linkToHead 7 1 graph_single = Some (Inl BRANCH_IS_NOT_A_HEAD, graph_single)"
    by (simp add: linkToHead_def graph_single_def)
  have d: "linkBranches 7 1 [] 15 graph_single = Some (Inl BRANCH_NOT_FOUND, graph_single)"
    by (simp add: linkBranches_def graph_single_def)
  obtain g1 where e: "switchToHead 1 graph_cyclic = Some (Inl CYCLE_DETECTED, g1)"
    by (simp add: switchToHead_def graph_cyclic_def mk_branch_def m_index_def kZeroBranchId_def)
  from failed_mutators_keep_graph
         [of 7 graph_single BRANCH_IS_NOT_A_HEAD graph_single BRANCH_IS_NOT_A_HEAD graph_single
             7 1 BRANCH_IS_NOT_A_HEAD graph_single "[]" 15 BRANCH_NOT_FOUND graph_single]
       a b c d
  have "graph_single = graph_single" by simp
  moreover
  from failed_mutators_keep_graph [of 1 graph_cyclic CYCLE_DETECTED g1] e
  have "g1 = graph_cyclic\<lparr>current_chain := []\<rparr>" by simp
  ultimately show ?thesis using a b c d e by simp
qed

section \<open>removeHead and merge\<close>

text \<open>
  Claim C2, as stated: a merging \<^verbatim>\<open>removeHead\<close> returns (collapsed parent, surviving
  successor), and on the graph B1, B2, B3, B4 \<^verbatim>\<open>removeHead(B3)\<close> returns (B2, B4).
  \<^verbatim>\<open>merge\<close> returns \<^verbatim>\<open>{b.parent, successor_id}\<close>, where \<open>b\<close> is the collapsed parent, so
  the first component is the parent of B2: the call returns (B1, B4).
\<close>

theorem removeHead_returns_grandparent_counterexample:
  "map_option fst (removeHead 3 graph_forked) = Some (Inr (1, 4))
   \<and> map_option fst (removeHead 3 graph_forked) \<noteq> Some (Inr (2, 4))"
  by (simp add: removeHead_def merge_def graph_forked_def mk_branch_def m_erase_def
        kZeroBranchId_def)

text \<open>
  Claim C2, amended. Let \<open>h\<close> be a head whose branch has parent \<open>p\<close>. If \<open>p\<close> is 0, or
  the forks of \<open>p\<close> without \<open>h\<close> are not exactly one, \<^verbatim>\<open>removeHead(h)\<close> returns (0, 0).
  If they are exactly one branch \<open>s\<close>, then \<open>h\<close> and \<open>p\<close> leave \<^verbatim>\<open>all_branches_\<close>, \<open>s\<close>
  adopts the bottom, the bottom height and the parent of \<open>p\<close>, the forks of the
  parent of \<open>p\<close> (when \<open>p\<close> has one) lose the id of \<open>p\<close> and gain \<open>s\<close>, and the call
  returns (parent of \<open>p\<close>, \<open>s\<close>): the first component is the id of the branch that
  \<open>s\<close> now hangs on, 0 when \<open>p\<close> was a root. On the graph B1, B2, B3, B4,
  \<^verbatim>\<open>removeHead(B3)\<close> returns (B1, B4).
\<close>

theorem removeHead_merge:
  assumes hd: "h \<in> heads g" and hb: "map_of (all_branches g) h = Some hb"
  shows "(parent hb = 0 \<longrightarrow> (\<exists>g'. removeHead h g = Some (Inr (0, 0), g')))
       \<and> (\<forall>pb. parent hb \<noteq> 0 \<and> parent hb \<noteq> h
                 \<and> map_of (all_branches g) (parent hb) = Some pb \<longrightarrow>
            (card (forks pb - {h}) \<noteq> 1 \<longrightarrow> (\<exists>g'. removeHead h g = Some (Inr (0, 0), g')))
          \<and> (\<forall>s sb. forks pb - {h} = {s} \<and> s \<noteq> parent hb
                      \<and> map_of (all_branches g) s = Some sb
                      \<and> (parent pb \<noteq> 0 \<longrightarrow> parent pb \<noteq> h \<and> parent pb \<noteq> parent hb
                            \<and> map_of (all_branches g) (parent pb) \<noteq> None) \<longrightarrow>
                (\<exists>g' sb'. removeHead h g = Some (Inr (parent pb, s), g')
                    \<and> map_of (all_branches g') s = Some sb'
                    \<and> bottom sb' = bottom pb \<and> bottom_height sb' = bottom_height pb
                    \<and> parent sb' = parent pb
                    \<and> map_of (all_branches g') h = None
                    \<and> map_of (all_branches g') (parent hb) = None
                    \<and> (\<forall>gp. parent pb \<noteq> 0 \<and> map_of (all_branches g) (parent pb) = Some gp \<longrightarrow>
                          (\<exists>gp'. map_of (all_branches g') (parent pb) = Some gp'
                              \<and> forks gp' = insert s (forks gp - {id_b pb}))))))"
proof (intro conjI allI impI)
  assume "parent hb = 0"
  with hd hb show "\<exists>g'. removeHead h g = Some (Inr (0, 0), g')"
    by (simp add: removeHead_def Let_def kZeroBranchId_def)
next
  fix pb
  assume p: "parent hb \<noteq> 0 \<and> parent hb \<noteq> h \<and> map_of (all_branches g) (parent hb) = Some pb"
  assume "card (forks pb - {h}) \<noteq> 1"
  with hd hb p show "\<exists>g'. removeHead h g = Some (Inr (0, 0), g')"
    by (simp add: removeHead_def Let_def kZeroBranchId_def map_of_m_erase)
next
  fix pb s sb
  assume p: "parent hb \<noteq> 0 \<and> parent hb \<noteq> h \<and> map_of (all_branches g) (parent hb) = Some pb"
  assume s: "forks pb - {h} = {s} \<and> s \<noteq> parent hb \<and> map_of (all_branches g) s = Some sb
     \<and> (parent pb \<noteq> 0 \<longrightarrow> parent pb \<noteq> h \<and> parent pb \<noteq> parent hb
           \<and> map_of (all_branches g) (parent pb) \<noteq> None)"
  from s have sh: "s \<noteq> h" "h \<noteq> s" "parent hb \<noteq> s" by auto
  show "\<exists>g' sb'. removeHead h g = Some (Inr (parent pb, s), g')
                    \<and> map_of (all_branches g') s = Some sb'
                    \<and> bottom sb' = bottom pb \<and> bottom_height sb' = bottom_height pb
                    \<and> parent sb' = parent pb
                    \<and> map_of (all_branches g') h = None
                    \<and> map_of (all_branches g') (parent hb) = None
                    \<and> (\<forall>gp. parent pb \<noteq> 0 \<and> map_of (all_branches g) (parent pb) = Some gp \<longrightarrow>
                          (\<exists>gp'. map_of (all_branches g') (parent pb) = Some gp'
                              \<and> forks gp' = insert s (forks gp - {id_b pb})))"
  proof (cases "parent pb = 0")
    case True
    with hd hb p s sh show ?thesis
      by (simp add: removeHead_def merge_def Let_def kZeroBranchId_def map_of_m_erase map_of_m_assign)
  next
    case False
    with s obtain gp where gp: "map_of (all_branches g) (parent pb) = Some gp"
      and ne: "parent pb \<noteq> h" "parent pb \<noteq> parent hb" by auto
    show ?thesis
    proof (cases "parent pb = s")
      case True
      with hd hb p s sh False gp ne show ?thesis
        by (simp add: removeHead_def merge_def Let_def kZeroBranchId_def map_of_m_erase map_of_m_assign)
    next
      case ns: False
      with hd hb p s sh False gp ne show ?thesis
        by (simp add: removeHead_def merge_def Let_def kZeroBranchId_def map_of_m_erase map_of_m_assign)
    qed
  qed
qed

theorem removeHead_merge_witness:
  "3 \<in> heads graph_forked
   \<and> map_of (all_branches graph_forked) 3 = Some (mk_branch 3 2 31 40 {})
   \<and> map_of (all_branches graph_forked) 2 = Some (mk_branch 2 1 21 30 {3, 4})
   \<and> map_of (all_branches graph_forked) 4 = Some (mk_branch 4 1 25 27 {})
   \<and> map_of (all_branches graph_forked) 1 = Some (mk_branch 1 0 10 20 {2})
   \<and> (\<exists>g' sb'. removeHead 3 graph_forked = Some (Inr (1, 4), g')
         \<and> map_of (all_branches g') 4 = Some sb'
         \<and> bottom_height sb' = 21 \<and> parent sb' = 1
         \<and> map_of (all_branches g') 2 = None
         \<and> (\<exists>gp'. map_of (all_branches g') 1 = Some gp' \<and> forks gp' = {4}))"
proof -
  have hd: "3 \<in> heads graph_forked" by (simp add: graph_forked_def)
  have hb: "map_of (all_branches graph_forked) 3 = Some (mk_branch 3 2 31 40 {})"
    by (simp add: graph_forked_def)
  have pb: "map_of (all_branches graph_forked) 2 = Some (mk_branch 2 1 21 30 {3, 4})"
    by (simp add: graph_forked_def)
  have sb: "map_of (all_branches graph_forked) 4 = Some (mk_branch 4 1 25 27 {})"
    by (simp add: graph_forked_def)
  have gp: "map_of (all_branches graph_forked) 1 = Some (mk_branch 1 0 10 20 {2})"
    by (simp add: graph_forked_def)
  have f: "forks (mk_branch 2 1 21 30 {3, 4}) - {3} = {4}"
    by (auto simp: mk_branch_def)
  from removeHead_merge[OF hd hb, THEN conjunct2, rule_format, of "mk_branch 2 1 21 30 {3, 4}",
      THEN conjunct2, rule_format, of 4 "mk_branch 4 1 25 27 {}"]
  have "\<exists>g' sb'. removeHead 3 graph_forked = Some (Inr (parent (mk_branch 2 1 21 30 {3, 4}), 4), g')
                    \<and> map_of (all_branches g') 4 = Some sb'
                    \<and> bottom sb' = bottom (mk_branch 2 1 21 30 {3, 4}) \<and> bottom_height sb' = bottom_height (mk_branch 2 1 21 30 {3, 4})
                    \<and> parent sb' = parent (mk_branch 2 1 21 30 {3, 4})
                    \<and> map_of (all_branches g') 3 = None
                    \<and> map_of (all_branches g') (parent (mk_branch 3 2 31 40 {})) = None
                    \<and> (\<forall>gp. parent (mk_branch 2 1 21 30 {3, 4}) \<noteq> 0 \<and> map_of (all_branches graph_forked) (parent (mk_branch 2 1 21 30 {3, 4})) = Some gp \<longrightarrow>
                          (\<exists>gp'. map_of (all_branches g') (parent (mk_branch 2 1 21 30 {3, 4})) = Some gp'
                              \<and> forks gp' = insert 4 (forks gp - {id_b (mk_branch 2 1 21 30 {3, 4})})))"
    using pb sb gp f by (simp add: mk_branch_def)
  then obtain g' sb' where r: "removeHead 3 graph_forked = Some (Inr (1, 4), g')"
     "map_of (all_branches g') 4 = Some sb'" "bottom_height sb' = 21" "parent sb' = 1"
     "map_of (all_branches g') 2 = None"
     and g: "\<forall>gp. map_of (all_branches graph_forked) 1 = Some gp \<longrightarrow>
                          (\<exists>gp'. map_of (all_branches g') 1 = Some gp'
                              \<and> forks gp' = insert 4 (forks gp - {2}))"
    by (auto simp: mk_branch_def)
  from g gp have "\<exists>gp'. map_of (all_branches g') 1 = Some gp' \<and> forks gp' = {4}"
    by (auto simp: mk_branch_def)
  with r hd hb pb sb gp show ?thesis by blast
qed

section \<open>load\<close>































section \<open>SyncJob\<close>

text \<open>
  Claim C7. If the job's status code is not \<^verbatim>\<open>IN_PROGRESS\<close>, or \<^verbatim>\<open>status.next\<close> is unset,
  or the delivered hash differs from \<^verbatim>\<open>status.next\<close>, then \<^verbatim>\<open>onTipsetLoaded\<close> leaves the
  job as it is and touches nothing around it: the scheduler holds no new callback,
  no callback has run, no load request has been made, and the chain database is as
  it was.
\<close>

theorem onTipsetLoaded_stale:
  "code (status j) \<noteq> IN_PROGRESS \<or> next (status j) = None \<or> next (status j) \<noteq> Some h
     \<Longrightarrow> onTipsetLoaded env h loaded (j, w) = (j, w)"
  by (auto simp: onTipsetLoaded_def)

theorem onTipsetLoaded_stale_witness:
  "next (status job_waiting) \<noteq> Some [4]
   \<and> onTipsetLoaded env_example [4] (Inr tipset_H) (job_waiting, world_example)
       = (job_waiting, world_example)
   \<and> onTipsetLoaded env_example [5] (Inr tipset_H) (job_waiting, world_example)
       \<noteq> (job_waiting, world_example)"
proof -
  have n: "next (status job_waiting) \<noteq> Some [4]" by (simp add: job_waiting_def)
  then have "code (status job_waiting) \<noteq> IN_PROGRESS \<or> next (status job_waiting) = None
               \<or> next (status job_waiting) \<noteq> Some [4]" by simp
  from onTipsetLoaded_stale [OF this, of env_example "Inr tipset_H" world_example]
  have a: "onTipsetLoaded env_example [4] (Inr tipset_H) (job_waiting, world_example)
       = (job_waiting, world_example)" .
  have b: "onTipsetLoaded env_example [5] (Inr tipset_H) (job_waiting, world_example)
       \<noteq> (job_waiting, world_example)"
    by (simp add: onTipsetLoaded_def job_waiting_def env_example_def world_example_def
          nextTarget_def scheduleCallback_def schedule_def tipset_H_def)
  from n a b show ?thesis by simp
qed

text \<open>
  Claim C10. \<^verbatim>\<open>start\<close> on a job that is already active returns at once: the job (its
  status with code, peer, head, next and last_loaded included) is unchanged, no load
  request is made, nothing is scheduled, no callback runs; the function returns
  nothing, so no error reaches the caller.
\<close>

theorem start_SyncJob_active:
  "active j \<Longrightarrow> start_SyncJob env p hd_key probable_depth (j, w) = (j, w)"
  by (simp add: start_SyncJob_def)

theorem start_SyncJob_active_witness:
  "active job_waiting
   \<and> start_SyncJob env_example [2] (key_of 3) 10 (job_waiting, world_example)
       = (job_waiting, world_example)
   \<and> start_SyncJob env_example [2] (key_of 3) 10 (SyncJob0, world_example)
       \<noteq> (SyncJob0, world_example)"
proof -
  have a: "active job_waiting" by (simp add: job_waiting_def)
  have b: "start_SyncJob env_example [2] (key_of 3) 10 (SyncJob0, world_example)
       \<noteq> (SyncJob0, world_example)"
    by (simp add: start_SyncJob_def SyncJob0_def env_example_def world_example_def
          request_load_def)
  from start_SyncJob_active [OF a, of env_example "[2]" "key_of 3" 10 world_example] a b
  show ?thesis by simp
qed

section \<open>Syncer\<close>

text \<open>
  Claim C5. Among pending targets of the same greatest weight \<^verbatim>\<open>chooseNextTarget\<close>
  should return the one with the greater height. The loop compares the height of a
  tying target with \<^verbatim>\<open>current_height_\<close> and never with the height of the target it has
  already chosen (\<^verbatim>\<open>max_height\<close> is written and not read), so the tying target that
  comes later in the iteration wins: with weight 0 and height 0 locally and two
  pending targets of weight 10, at heights 50 and 20 in this order, the code returns
  the one at height 20.
\<close>

theorem chooseNextTarget_tie_takes_later:
  "fst (chooseNextTarget syncer_tie)
     = Some ([2], \<lparr>head_tipset = key_of 2, weight = 10, height = 20\<rparr>)
   \<and> ([1], \<lparr>head_tipset = key_of 1, weight = 10, height = 50\<rparr>) \<in> set (pending_targets syncer_tie)
   \<and> pending_targets (snd (chooseNextTarget syncer_tie)) = pending_targets syncer_tie"
  by (simp add: chooseNextTarget_def syncer_tie_def)

lemma map_of_um_assign: "map_of (um_assign pos k v m) = (map_of m)(k \<mapsto> v)"
proof (cases "k \<in> fst ` set m")
  case True
  then obtain u where u: "map_of m k = Some u"
    by (cases "map_of m k") (auto simp: map_of_eq_None_iff)
  have "map_of (map (\<lambda>e. if fst e = k then (k, v) else e) m) k'
          = (if k' = k then map_option (\<lambda>_. v) (map_of m k) else map_of m k')" for k'
    by (induction m) auto
  with True u show ?thesis by (auto simp: um_assign_def fun_eq_iff)
next
  case False
  then have nk: "map_of (take pos m) k = None" "map_of m k = None"
    by (auto simp: map_of_eq_None_iff dest: in_set_takeD)
  have sp: "map_of m = map_of (drop pos m) ++ map_of (take pos m)"
    by (metis append_take_drop_id map_of_append)
  have "map_of (take pos m @ (k, v) # drop pos m)
          = (map_of (drop pos m))(k \<mapsto> v) ++ map_of (take pos m)"
    by simp
  also have "\<dots> = (map_of (drop pos m) ++ map_of (take pos m))(k \<mapsto> v)"
    using nk(1) by (auto simp: fun_eq_iff map_add_def split: option.splits)
  finally show ?thesis using False sp by (simp add: um_assign_def)
qed

lemma start_SyncJob_effect:
  assumes na: "\<not> active j0"
  shows "active (fst (start_SyncJob env q k d (j0, w)))
     \<and> peer (status (fst (start_SyncJob env q k d (j0, w)))) = Some q
     \<and> head (status (fst (start_SyncJob env q k d (j0, w)))) = Some k
     \<and> (\<not> tipsetIsStored env (ext w) (hash (moved_from env k)) \<longrightarrow>
          load_requests (snd (start_SyncJob env q k d (j0, w)))
            = load_requests w @ [(k, Some q, d)]
          \<and> ext (snd (start_SyncJob env q k d (j0, w)))
               = snd (loadTipsetAsync env (ext w) k (Some q) d)
          \<and> (case fst (loadTipsetAsync env (ext w) k (Some q) d) of
                Inr u \<Rightarrow>
                  code (status (fst (start_SyncJob env q k d (j0, w)))) = IN_PROGRESS
                  \<and> next (status (fst (start_SyncJob env q k d (j0, w)))) = Some (hash k)
                  \<and> scheduler (snd (start_SyncJob env q k d (j0, w))) = scheduler w
              | Inl e \<Rightarrow>
                  code (status (fst (start_SyncJob env q k d (j0, w)))) = INTERNAL_ERROR
                  \<and> error (status (fst (start_SyncJob env q k d (j0, w)))) = e
                  \<and> pending (scheduler (snd (start_SyncJob env q k d (j0, w))))
                      = pending (scheduler w) @ [(next_ticket (scheduler w), SyncJobCallback)]))
     \<and> (tipsetIsStored env (ext w) (hash (moved_from env k)) \<longrightarrow>
          (case getUnsyncedBottom env (ext w) (moved_from env k) of
             Inl e \<Rightarrow>
               code (status (fst (start_SyncJob env q k d (j0, w)))) = INTERNAL_ERROR
               \<and> error (status (fst (start_SyncJob env q k d (j0, w)))) = e
               \<and> load_requests (snd (start_SyncJob env q k d (j0, w))) = load_requests w
               \<and> pending (scheduler (snd (start_SyncJob env q k d (j0, w))))
                   = pending (scheduler w) @ [(next_ticket (scheduler w), SyncJobCallback)]
           | Inr None \<Rightarrow>
               code (status (fst (start_SyncJob env q k d (j0, w)))) = SYNCED_TO_GENESIS
               \<and> next (status (fst (start_SyncJob env q k d (j0, w)))) = Some []
               \<and> load_requests (snd (start_SyncJob env q k d (j0, w))) = load_requests w
               \<and> pending (scheduler (snd (start_SyncJob env q k d (j0, w))))
                   = pending (scheduler w) @ [(next_ticket (scheduler w), SyncJobCallback)]
           | Inr (Some rts) \<Rightarrow>
               last_loaded (status (fst (start_SyncJob env q k d (j0, w)))) = Some (hash (key rts))
               \<and> next (status (fst (start_SyncJob env q k d (j0, w))))
                   = Some (hash (getParents rts))
               \<and> load_requests (snd (start_SyncJob env q k d (j0, w)))
                   = load_requests w @ [(getParents rts, Some q, height_ts rts - 1)]
               \<and> (case fst (loadTipsetAsync env (ext w) (getParents rts) (Some q)
                              (height_ts rts - 1)) of
                     Inr u \<Rightarrow>
                       code (status (fst (start_SyncJob env q k d (j0, w)))) = code (status j0)
                       \<and> scheduler (snd (start_SyncJob env q k d (j0, w))) = scheduler w
                   | Inl e \<Rightarrow>
                       code (status (fst (start_SyncJob env q k d (j0, w)))) = INTERNAL_ERROR
                       \<and> error (status (fst (start_SyncJob env q k d (j0, w)))) = e
                       \<and> pending (scheduler (snd (start_SyncJob env q k d (j0, w))))
                           = pending (scheduler w)
                             @ [(next_ticket (scheduler w), SyncJobCallback)])))"
  using na
  by (auto simp: start_SyncJob_def Let_def request_load_def internalError_def
        scheduleCallback_def schedule_def nextTarget_def
        split: sum.splits option.splits prod.splits)

text \<open>
  Claim C6. \<^verbatim>\<open>newTarget\<close> does nothing when both the weight and the height of the
  target are below the local ones. Otherwise, without a peer and without a last good
  peer it does nothing either. With the peer given, or else the last good peer, and
  the syncer started with no job active, it starts a job for the target at once:
  \<^verbatim>\<open>SyncJob::start\<close> runs on the idle job with that peer, that head and the depth hint
  \<^verbatim>\<open>startJob\<close> computes, the job is active afterwards and holds the peer and the
  head, and either the tipset loader has been asked for a tipset (for the head, with
  the status \<^verbatim>\<open>IN_PROGRESS\<close> and \<^verbatim>\<open>next\<close> its hash, when the chain database does not
  hold it; for the parents of the deepest unsynced tipset when it does) or the
  terminal callback has been scheduled (synced to genesis, or an error of the chain
  database or of the loader). In every other case the target is recorded under the
  peer in \<^verbatim>\<open>pending_targets_\<close> and nothing else changes.
\<close>

theorem newTarget_admission:
  "(wt < current_weight s \<and> h < current_height s \<longrightarrow>
      newTarget env p k wt h (s, w) = Some (s, w))
   \<and> (\<not> (wt < current_weight s \<and> h < current_height s) \<longrightarrow>
        (p = None \<and> last_good_peer s = None \<longrightarrow> newTarget env p k wt h (s, w) = Some (s, w))
      \<and> (\<forall>q. p = Some q \<or> (p = None \<and> last_good_peer s = Some q) \<longrightarrow>
            (started s \<and> \<not> isActive s \<longrightarrow>
               newTarget env p k wt h (s, w) = startJob env q k h (s, w)
               \<and> (let d = (if probable_height s < h then h - probable_height s else h);
                       j0 = (case current_job s of None \<Rightarrow> SyncJob0 | Some j \<Rightarrow> j)
                   in \<exists>j' w'.
                        newTarget env p k wt h (s, w) = Some (s\<lparr>current_job := Some j'\<rparr>, w')
                        \<and> (j', w') = start_SyncJob env q k d (j0, w)
                        \<and> \<not> active j0
                        \<and> active j'
                        \<and> peer (status j') = Some q \<and> head (status j') = Some k
                        \<and> (\<not> tipsetIsStored env (ext w) (hash (moved_from env k)) \<longrightarrow>
                              load_requests w' = load_requests w @ [(k, Some q, d)]
                              \<and> ext w' = snd (loadTipsetAsync env (ext w) k (Some q) d)
                              \<and> (case fst (loadTipsetAsync env (ext w) k (Some q) d) of
                                    Inr u \<Rightarrow>
                                      code (status j') = IN_PROGRESS
                                      \<and> next (status j') = Some (hash k)
                                      \<and> scheduler w' = scheduler w
                                  | Inl e \<Rightarrow>
                                      code (status j') = INTERNAL_ERROR \<and> error (status j') = e
                                      \<and> pending (scheduler w')
                                          = pending (scheduler w)
                                            @ [(next_ticket (scheduler w), SyncJobCallback)]))
                        \<and> (tipsetIsStored env (ext w) (hash (moved_from env k)) \<longrightarrow>
                              (case getUnsyncedBottom env (ext w) (moved_from env k) of
                                 Inl e \<Rightarrow>
                                   code (status j') = INTERNAL_ERROR \<and> error (status j') = e
                                   \<and> load_requests w' = load_requests w
                                   \<and> pending (scheduler w')
                                       = pending (scheduler w)
                                         @ [(next_ticket (scheduler w), SyncJobCallback)]
                               | Inr None \<Rightarrow>
                                   code (status j') = SYNCED_TO_GENESIS
                                   \<and> next (status j') = Some []
                                   \<and> load_requests w' = load_requests w
                                   \<and> pending (scheduler w')
                                       = pending (scheduler w)
                                         @ [(next_ticket (scheduler w), SyncJobCallback)]
                               | Inr (Some rts) \<Rightarrow>
                                   last_loaded (status j') = Some (hash (key rts))
                                   \<and> next (status j') = Some (hash (getParents rts))
                                   \<and> load_requests w'
                                       = load_requests w
                                         @ [(getParents rts, Some q, height_ts rts - 1)]
                                   \<and> (case fst (loadTipsetAsync env (ext w) (getParents rts)
                                                  (Some q) (height_ts rts - 1)) of
                                         Inr u \<Rightarrow>
                                           code (status j') = code (status j0)
                                           \<and> scheduler w' = scheduler w
                                       | Inl e \<Rightarrow>
                                           code (status j') = INTERNAL_ERROR
                                           \<and> error (status j') = e
                                           \<and> pending (scheduler w')
                                               = pending (scheduler w)
                                                 @ [(next_ticket (scheduler w),
                                                     SyncJobCallback)])))))
          \<and> (\<not> (started s \<and> \<not> isActive s) \<longrightarrow>
               (\<exists>pt. newTarget env p k wt h (s, w) = Some (s\<lparr>pending_targets := pt\<rparr>, w)
                  \<and> map_of pt = (map_of (pending_targets s))
                                   (q \<mapsto> \<lparr>head_tipset = k, weight = wt, height = h\<rparr>)))))"
proof (intro conjI impI allI)
  assume "wt < current_weight s \<and> h < current_height s"
  then show "newTarget env p k wt h (s, w) = Some (s, w)" by (simp add: newTarget_def)
next
  assume "\<not> (wt < current_weight s \<and> h < current_height s)" "p = None \<and> last_good_peer s = None"
  then show "newTarget env p k wt h (s, w) = Some (s, w)" by (auto simp: newTarget_def)
next
  fix q
  assume a: "\<not> (wt < current_weight s \<and> h < current_height s)"
    and q: "p = Some q \<or> (p = None \<and> last_good_peer s = Some q)"
    and i: "started s \<and> \<not> isActive s"
  from a q i show eq: "newTarget env p k wt h (s, w) = startJob env q k h (s, w)"
    by (auto simp: newTarget_def)
  define d where "d = (if probable_height s < h then h - probable_height s else h)"
  define j0 where "j0 = (case current_job s of None \<Rightarrow> SyncJob0 | Some j \<Rightarrow> j)"
  define st where "st = start_SyncJob env q k d (j0, w)"
  from i have na: "\<not> active j0"
    by (auto simp: j0_def isActive_def SyncJob0_def split: option.splits)
  from i na have sj: "startJob env q k h (s, w) = Some (s\<lparr>current_job := Some (fst st)\<rparr>, snd st)"
    by (simp add: startJob_def Let_def d_def j0_def st_def split: prod.splits)
  note eff = start_SyncJob_effect [OF na, of env q k d w, folded st_def]
  have "\<exists>j' w'.
          newTarget env p k wt h (s, w) = Some (s\<lparr>current_job := Some j'\<rparr>, w')
          \<and> (j', w') = start_SyncJob env q k d (j0, w)
          \<and> \<not> active j0
          \<and> active j'
          \<and> peer (status j') = Some q \<and> head (status j') = Some k
          \<and> (\<not> tipsetIsStored env (ext w) (hash (moved_from env k)) \<longrightarrow>
                load_requests w' = load_requests w @ [(k, Some q, d)]
                \<and> ext w' = snd (loadTipsetAsync env (ext w) k (Some q) d)
                \<and> (case fst (loadTipsetAsync env (ext w) k (Some q) d) of
                      Inr u \<Rightarrow>
                        code (status j') = IN_PROGRESS
                        \<and> next (status j') = Some (hash k)
                        \<and> scheduler w' = scheduler w
                    | Inl e \<Rightarrow>
                        code (status j') = INTERNAL_ERROR \<and> error (status j') = e
                        \<and> pending (scheduler w')
                            = pending (scheduler w)
                              @ [(next_ticket (scheduler w), SyncJobCallback)]))
          \<and> (tipsetIsStored env (ext w) (hash (moved_from env k)) \<longrightarrow>
                (case getUnsyncedBottom env (ext w) (moved_from env k) of
                   Inl e \<Rightarrow>
                     code (status j') = INTERNAL_ERROR \<and> error (status j') = e
                     \<and> load_requests w' = load_requests w
                     \<and> pending (scheduler w')
                         = pending (scheduler w)
                           @ [(next_ticket (scheduler w), SyncJobCallback)]
                 | Inr None \<Rightarrow>
                     code (status j') = SYNCED_TO_GENESIS
                     \<and> next (status j') = Some []
                     \<and> load_requests w' = load_requests w
                     \<and> pending (scheduler w')
                         = pending (scheduler w)
                           @ [(next_ticket (scheduler w), SyncJobCallback)]
                 | Inr (Some rts) \<Rightarrow>
                     last_loaded (status j') = Some (hash (key rts))
                     \<and> next (status j') = Some (hash (getParents rts))
                     \<and> load_requests w'
                         = load_requests w
                           @ [(getParents rts, Some q, height_ts rts - 1)]
                     \<and> (case fst (loadTipsetAsync env (ext w) (getParents rts)
                                    (Some q) (height_ts rts - 1)) of
                           Inr u \<Rightarrow>
                             code (status j') = code (status j0)
                             \<and> scheduler w' = scheduler w
                         | Inl e \<Rightarrow>
                             code (status j') = INTERNAL_ERROR
                             \<and> error (status j') = e
                             \<and> pending (scheduler w')
                                 = pending (scheduler w)
                                   @ [(next_ticket (scheduler w),
                                       SyncJobCallback)])))"
    apply (rule exI [of _ "fst st"])
    apply (rule exI [of _ "snd st"])
    apply (intro conjI)
    apply (simp add: eq sj)
    apply (simp add: st_def)
    apply (rule na)
    apply (rule eff [THEN conjunct1])
    apply (rule eff [THEN conjunct2, THEN conjunct1])
    apply (rule eff [THEN conjunct2, THEN conjunct2, THEN conjunct1])
    apply (rule eff [THEN conjunct2, THEN conjunct2, THEN conjunct2, THEN conjunct1])
    apply (rule eff [THEN conjunct2, THEN conjunct2, THEN conjunct2, THEN conjunct2])
    done
  then show "let d = (if probable_height s < h then h - probable_height s else h);
                 j0 = (case current_job s of None \<Rightarrow> SyncJob0 | Some j \<Rightarrow> j)
             in \<exists>j' w'.
                  newTarget env p k wt h (s, w) = Some (s\<lparr>current_job := Some j'\<rparr>, w')
                  \<and> (j', w') = start_SyncJob env q k d (j0, w)
                  \<and> \<not> active j0
                  \<and> active j'
                  \<and> peer (status j') = Some q \<and> head (status j') = Some k
                  \<and> (\<not> tipsetIsStored env (ext w) (hash (moved_from env k)) \<longrightarrow>
                        load_requests w' = load_requests w @ [(k, Some q, d)]
                        \<and> ext w' = snd (loadTipsetAsync env (ext w) k (Some q) d)
                        \<and> (case fst (loadTipsetAsync env (ext w) k (Some q) d) of
                              Inr u \<Rightarrow>
                                code (status j') = IN_PROGRESS
                                \<and> next (status j') = Some (hash k)
                                \<and> scheduler w' = scheduler w
                            | Inl e \<Rightarrow>
                                code (status j') = INTERNAL_ERROR \<and> error (status j') = e
                                \<and> pending (scheduler w')
                                    = pending (scheduler w)
                                      @ [(next_ticket (scheduler w), SyncJobCallback)]))
                  \<and> (tipsetIsStored env (ext w) (hash (moved_from env k)) \<longrightarrow>
                        (case getUnsyncedBottom env (ext w) (moved_from env k) of
                           Inl e \<Rightarrow>
                             code (status j') = INTERNAL_ERROR \<and> error (status j') = e
                             \<and> load_requests w' = load_requests w
                             \<and> pending (scheduler w')
                                 = pending (scheduler w)
                                   @ [(next_ticket (scheduler w), SyncJobCallback)]
                         | Inr None \<Rightarrow>
                             code (status j') = SYNCED_TO_GENESIS
                             \<and> next (status j') = Some []
                             \<and> load_requests w' = load_requests w
                             \<and> pending (scheduler w')
                                 = pending (scheduler w)
                                   @ [(next_ticket (scheduler w), SyncJobCallback)]
                         | Inr (Some rts) \<Rightarrow>
                             last_loaded (status j') = Some (hash (key rts))
                             \<and> next (status j') = Some (hash (getParents rts))
                             \<and> load_requests w'
                                 = load_requests w
                                   @ [(getParents rts, Some q, height_ts rts - 1)]
                             \<and> (case fst (loadTipsetAsync env (ext w) (getParents rts)
                                            (Some q) (height_ts rts - 1)) of
                                   Inr u \<Rightarrow>
                                     code (status j') = code (status j0)
                                     \<and> scheduler w' = scheduler w
                                 | Inl e \<Rightarrow>
                                     code (status j') = INTERNAL_ERROR
                                     \<and> error (status j') = e
                                     \<and> pending (scheduler w')
                                         = pending (scheduler w)
                                           @ [(next_ticket (scheduler w),
                                               SyncJobCallback)])))"
    unfolding Let_def d_def j0_def .
next
  fix q
  assume a: "\<not> (wt < current_weight s \<and> h < current_height s)"
    and q: "p = Some q \<or> (p = None \<and> last_good_peer s = Some q)"
    and i: "\<not> (started s \<and> \<not> isActive s)"
  let ?pt = "um_assign (new_entry_position env q (map fst (pending_targets s))) q
               \<lparr>head_tipset = k, weight = wt, height = h\<rparr> (pending_targets s)"
  from a q i have "newTarget env p k wt h (s, w) = Some (s\<lparr>pending_targets := ?pt\<rparr>, w)"
    by (auto simp: newTarget_def)
  moreover have "map_of ?pt = (map_of (pending_targets s))
                                   (q \<mapsto> \<lparr>head_tipset = k, weight = wt, height = h\<rparr>)"
    by (rule map_of_um_assign)
  ultimately show "\<exists>pt. newTarget env p k wt h (s, w) = Some (s\<lparr>pending_targets := pt\<rparr>, w)
                  \<and> map_of pt = (map_of (pending_targets s))
                                   (q \<mapsto> \<lparr>head_tipset = k, weight = wt, height = h\<rparr>)"
    by (intro exI conjI)
qed


theorem newTarget_admission_witness:
  "(50 < current_weight syncer_idle \<and> 50 < current_height syncer_idle)
   \<and> newTarget env_example (Some [3]) (key_of 3) 50 50 (syncer_idle, world_example)
       = Some (syncer_idle, world_example)
   \<and> \<not> (150 < current_weight syncer_idle \<and> 150 < current_height syncer_idle)
   \<and> newTarget env_example None (key_of 3) 150 150 (syncer_idle, world_example)
       = Some (syncer_idle, world_example)
   \<and> (\<exists>j' w'. newTarget env_example (Some [3]) (key_of 3) 150 150 (syncer_idle, world_example)
                  = Some (syncer_idle\<lparr>current_job := Some j'\<rparr>, w')
          \<and> active j' \<and> peer (status j') = Some [3] \<and> head (status j') = Some (key_of 3)
          \<and> code (status j') = IN_PROGRESS \<and> next (status j') = Some [3]
          \<and> load_requests w' = [(key_of 3, Some [3], 150)]
          \<and> scheduler w' = scheduler world_example)
   \<and> (\<exists>pt. newTarget env_example (Some [3]) (key_of 3) 150 150 (syncer_busy, world_example)
                  = Some (syncer_busy\<lparr>pending_targets := pt\<rparr>, world_example)
          \<and> map_of pt [3] = Some \<lparr>head_tipset = key_of 3, weight = 150, height = 150\<rparr>)"
proof -
  have lo: "50 < current_weight syncer_idle \<and> 50 < current_height syncer_idle"
    by (simp add: syncer_idle_def)
  have hi: "\<not> (150 < current_weight syncer_idle \<and> 150 < current_height syncer_idle)"
    by (simp add: syncer_idle_def)
  have hi': "\<not> (150 < current_weight syncer_busy \<and> 150 < current_height syncer_busy)"
    by (simp add: syncer_busy_def syncer_idle_def)
  have idle: "started syncer_idle \<and> \<not> isActive syncer_idle"
    by (simp add: syncer_idle_def isActive_def)
  have busy: "\<not> (started syncer_busy \<and> \<not> isActive syncer_busy)"
    by (simp add: syncer_busy_def syncer_idle_def isActive_def job_waiting_def)
  have nop: "(None :: PeerId option) = None \<and> last_good_peer syncer_idle = None"
    by (simp add: syncer_idle_def)
  have a: "newTarget env_example (Some [3]) (key_of 3) 50 50 (syncer_idle, world_example)
             = Some (syncer_idle, world_example)"
    using newTarget_admission
            [where wt = 50 and h = 50 and s = syncer_idle and env = env_example
               and p = "Some [3]" and k = "key_of 3" and w = world_example,
             THEN conjunct1, rule_format, OF lo] .
  have b: "newTarget env_example None (key_of 3) 150 150 (syncer_idle, world_example)
             = Some (syncer_idle, world_example)"
    using newTarget_admission
            [where wt = 150 and h = 150 and s = syncer_idle and env = env_example
               and p = None and k = "key_of 3" and w = world_example,
             THEN conjunct2, rule_format, OF hi, THEN conjunct1, rule_format, OF nop] .
  have ns: "\<not> tipsetIsStored env_example x (hash (moved_from env_example (key_of 3)))" for x
    by (simp add: env_example_def)
  have ld: "loadTipsetAsync env_example x (key_of 3) (Some [3]) 150 = (Inr (), x)" for x
    by (simp add: env_example_def)
  have qq: "Some [3] = Some ([3] :: PeerId)
              \<or> (Some [3] = None \<and> last_good_peer syncer_idle = Some [3])"
    by simp
  have dp: "(if probable_height syncer_idle < 150 then 150 - probable_height syncer_idle
             else 150) = (150 :: 64 word)"
    by (simp add: syncer_idle_def)
  have c: "\<exists>j' w'. newTarget env_example (Some [3]) (key_of 3) 150 150 (syncer_idle, world_example)
                  = Some (syncer_idle\<lparr>current_job := Some j'\<rparr>, w')
          \<and> active j' \<and> peer (status j') = Some [3] \<and> head (status j') = Some (key_of 3)
          \<and> code (status j') = IN_PROGRESS \<and> next (status j') = Some [3]
          \<and> load_requests w' = [(key_of 3, Some [3], 150)]
          \<and> scheduler w' = scheduler world_example"
    using newTarget_admission
            [where wt = 150 and h = 150 and s = syncer_idle and env = env_example
               and p = "Some [3]" and k = "key_of 3" and w = world_example,
             THEN conjunct2, rule_format, OF hi, THEN conjunct2, rule_format, of "[3]",
             THEN conjunct1, rule_format, OF qq idle, THEN conjunct2]
    unfolding Let_def dp
    apply (elim exE conjE)
    apply (rule_tac x = j' in exI)
    apply (rule_tac x = w' in exI)
    apply (simp add: ns ld)
    apply (simp add: world_example_def key_of_def)
    done
  have "\<exists>pt. newTarget env_example (Some [3]) (key_of 3) 150 150 (syncer_busy, world_example)
                  = Some (syncer_busy\<lparr>pending_targets := pt\<rparr>, world_example)
          \<and> map_of pt = (map_of (pending_targets syncer_busy))
                ([3] \<mapsto> \<lparr>head_tipset = key_of 3, weight = 150, height = 150\<rparr>)"
    using newTarget_admission
            [where wt = 150 and h = 150 and s = syncer_busy and env = env_example
               and p = "Some [3]" and k = "key_of 3" and w = world_example,
             THEN conjunct2, rule_format, OF hi', THEN conjunct2, rule_format, of "[3]",
             THEN conjunct2, rule_format, OF _ busy]
    by simp
  then obtain pt where
    d1: "newTarget env_example (Some [3]) (key_of 3) 150 150 (syncer_busy, world_example)
                  = Some (syncer_busy\<lparr>pending_targets := pt\<rparr>, world_example)"
    and d2: "map_of pt = (map_of (pending_targets syncer_busy))
                ([3] \<mapsto> \<lparr>head_tipset = key_of 3, weight = 150, height = 150\<rparr>)"
    by (elim exE conjE)
  from d2 have "map_of pt [3] = Some \<lparr>head_tipset = key_of 3, weight = 150, height = 150\<rparr>"
    by simp
  with d1 have d: "\<exists>pt. newTarget env_example (Some [3]) (key_of 3) 150 150 (syncer_busy, world_example)
                  = Some (syncer_busy\<lparr>pending_targets := pt\<rparr>, world_example)
          \<and> map_of pt [3] = Some \<lparr>head_tipset = key_of 3, weight = 150, height = 150\<rparr>"
    by (intro exI conjI)
  show ?thesis
    by (intro conjI) (rule lo [THEN conjunct1] lo [THEN conjunct2] hi a b c d)+
qed

section \<open>InterpreterJob\<close>

text \<open>
  Claim C8. When the chain database knows the tipset of the head and the memo store
  holds a result for it, \<^verbatim>\<open>start\<close> returns success, sets \<^verbatim>\<open>current_height\<close> to
  \<^verbatim>\<open>target_height\<close> (the height of that tipset), puts the cached result into the
  job's result and hands exactly one closure to the scheduler, the one that delivers
  the job's result to the callback; a closure of a job that was still active is
  cancelled first. \<^verbatim>\<open>interpret\<close> is not called, and the job is left inactive, so no
  step that might call it can run.
\<close>

theorem start_InterpreterJob_memoized:
  assumes "getTipsetByKey env (ext w) hd_key = Inr t"
      and "getSavedResult env (ext w) t = Inr (Some r)"
  shows "\<exists>j' w'. start_InterpreterJob env hd_key (j, w) = (Inr (), j', w')
           \<and> Status.current_height (InterpreterJob.status j')
               = target_height (InterpreterJob.status j')
           \<and> target_height (InterpreterJob.status j') = height_ts t
           \<and> Result.result (InterpreterJob.result j') = Inr r
           \<and> Result.head (InterpreterJob.result j') = Some t
           \<and> \<not> InterpreterJob.active j'
           \<and> InterpreterJob.cb_handle j' = Some (next_ticket (scheduler w))
           \<and> pending (scheduler w')
               = filter (\<lambda>e. InterpreterJob.active j \<longrightarrow> Some (fst e) \<noteq> InterpreterJob.cb_handle j)
                   (pending (scheduler w))
                 @ [(next_ticket (scheduler w), InterpreterResultCallback)]
           \<and> next_ticket (scheduler w') = next_ticket (scheduler w) + 1
           \<and> interpret_calls w' = interpret_calls w
           \<and> interpreter_callbacks w' = interpreter_callbacks w
           \<and> load_requests w' = load_requests w
           \<and> ext w' = ext w"
  using assms
  by (cases "InterpreterJob.active j")
     (simp_all add: start_InterpreterJob_def cancel_InterpreterJob_def scheduleResult_def
        schedule_def cancel_handle_def Let_def)

theorem start_InterpreterJob_memoized_witness:
  "getTipsetByKey env_example (ext world_example) (key_of 7) = Inr tipset_H
   \<and> getSavedResult env_example (ext world_example) tipset_H = Inr (Some result_H)
   \<and> (\<exists>j' w'. start_InterpreterJob env_example (key_of 7) (interpreter_idle, world_example)
                  = (Inr (), j', w')
          \<and> Status.current_height (InterpreterJob.status j') = 150
          \<and> target_height (InterpreterJob.status j') = 150
          \<and> Result.result (InterpreterJob.result j') = Inr result_H
          \<and> pending (scheduler w') = [(0, InterpreterResultCallback)]
          \<and> interpret_calls w' = [])"
proof -
  have a: "getTipsetByKey env_example (ext world_example) (key_of 7) = Inr tipset_H"
    by (simp add: env_example_def)
  have b: "getSavedResult env_example (ext world_example) tipset_H = Inr (Some result_H)"
    by (simp add: env_example_def)
  from start_InterpreterJob_memoized [OF a b, of interpreter_idle]
  have "\<exists>j' w'. start_InterpreterJob env_example (key_of 7) (interpreter_idle, world_example)
                  = (Inr (), j', w')
          \<and> Status.current_height (InterpreterJob.status j') = 150
          \<and> target_height (InterpreterJob.status j') = 150
          \<and> Result.result (InterpreterJob.result j') = Inr result_H
          \<and> pending (scheduler w') = [(0, InterpreterResultCallback)]
          \<and> interpret_calls w' = []"
    by (auto simp: tipset_H_def world_example_def interpreter_idle_def)
  then show ?thesis by (intro conjI) (rule a b, rule a b, assumption)
qed

end
